theory Spec2Isabelle
  imports Complex_Main "HOL-Library.Multiset"
begin

section \<open>Python string primitives\<close>

text \<open>
  A \<^typ>\<open>string\<close> stands for a Python \<open>str\<close> whose code points are below 256, one
  \<^typ>\<open>char\<close> per code point. Only the built-ins the three tools call are modelled:
  \<open>str.split(sep)\<close>, \<open>str.split(sep, 1)\<close>, \<open>str.strip()\<close>, \<open>str.lower()\<close> and
  \<open>int(str)\<close>. Exhaustion of memory or of threads is outside the model.
\<close>

definition whitespace :: "char list" where
  \<comment> \<open>the code points below 256 with \<open>str.isspace()\<close>: what \<open>str.strip()\<close> removes\<close>
  "whitespace =
     [CHR 0x09, CHR 0x0A, CHR 0x0B, CHR 0x0C, CHR 0x0D, CHR 0x1C, CHR 0x1D, CHR 0x1E,
      CHR 0x1F, CHR 0x20, CHR 0x85, CHR 0xA0]"

definition isspace :: "char \<Rightarrow> bool" where
  "isspace c = (c \<in> set whitespace)"

definition strip :: "string \<Rightarrow> string" where
  "strip s = rev (dropWhile isspace (rev (dropWhile isspace s)))"

fun split :: "char \<Rightarrow> string \<Rightarrow> string list" where
  \<comment> \<open>\<open>s.split(sep)\<close> for a one-character separator: never empty, \<open>''''.split('','') = ['''']\<close>\<close>
  "split sep [] = [[]]"
| "split sep (c # cs) =
     (if c = sep then [] # split sep cs
      else (case split sep cs of [] \<Rightarrow> [[c]] | w # ws \<Rightarrow> (c # w) # ws))"

definition split1 :: "char \<Rightarrow> string \<Rightarrow> string \<times> string" where
  \<comment> \<open>\<open>s.split(sep, 1)\<close> when \<open>sep in s\<close>: the text before and after the first separator\<close>
  "split1 sep s = (takeWhile (\<lambda>c. c \<noteq> sep) s, drop 1 (dropWhile (\<lambda>c. c \<noteq> sep) s))"

definition uppercase :: "char list" where
  \<comment> \<open>the code points below 256 that \<open>str.lower()\<close> changes\<close>
  "uppercase = ''ABCDEFGHIJKLMNOPQRSTUVWXYZ'' @
     [CHR 0xC0, CHR 0xC1, CHR 0xC2, CHR 0xC3, CHR 0xC4, CHR 0xC5, CHR 0xC6, CHR 0xC7,
      CHR 0xC8, CHR 0xC9, CHR 0xCA, CHR 0xCB, CHR 0xCC, CHR 0xCD, CHR 0xCE, CHR 0xCF,
      CHR 0xD0, CHR 0xD1, CHR 0xD2, CHR 0xD3, CHR 0xD4, CHR 0xD5, CHR 0xD6,
      CHR 0xD8, CHR 0xD9, CHR 0xDA, CHR 0xDB, CHR 0xDC, CHR 0xDD, CHR 0xDE]"

definition lowercase :: "char list" where
  "lowercase = ''abcdefghijklmnopqrstuvwxyz'' @
     [CHR 0xE0, CHR 0xE1, CHR 0xE2, CHR 0xE3, CHR 0xE4, CHR 0xE5, CHR 0xE6, CHR 0xE7,
      CHR 0xE8, CHR 0xE9, CHR 0xEA, CHR 0xEB, CHR 0xEC, CHR 0xED, CHR 0xEE, CHR 0xEF,
      CHR 0xF0, CHR 0xF1, CHR 0xF2, CHR 0xF3, CHR 0xF4, CHR 0xF5, CHR 0xF6,
      CHR 0xF8, CHR 0xF9, CHR 0xFA, CHR 0xFB, CHR 0xFC, CHR 0xFD, CHR 0xFE]"

definition lower :: "string \<Rightarrow> string" where
  "lower s = map (\<lambda>c. case map_of (zip uppercase lowercase) c of None \<Rightarrow> c | Some l \<Rightarrow> l) s"

subsection \<open>\<open>int(str)\<close>\<close>

definition int_whitespace :: "char list" where
  \<comment> \<open>what \<open>int()\<close> skips around the literal: the ASCII white space of C, and the
      non-ASCII code points with \<open>isspace()\<close>; not \<open>0x1C\<close> to \<open>0x1F\<close>\<close>
  "int_whitespace =
     [CHR 0x09, CHR 0x0A, CHR 0x0B, CHR 0x0C, CHR 0x0D, CHR 0x20, CHR 0x85, CHR 0xA0]"

definition digit_of :: "char \<Rightarrow> int option" where
  "digit_of c =
     map_of [(CHR ''0'', 0), (CHR ''1'', 1), (CHR ''2'', 2), (CHR ''3'', 3), (CHR ''4'', 4),
             (CHR ''5'', 5), (CHR ''6'', 6), (CHR ''7'', 7), (CHR ''8'', 8), (CHR ''9'', 9)] c"

fun int_digits :: "string \<Rightarrow> int list option"
  and more_digits :: "string \<Rightarrow> int list option" where
  \<comment> \<open>a digit, then digits each preceded by at most one underscore\<close>
  "int_digits [] = None"
| "int_digits (c # cs) =
     (case digit_of c of None \<Rightarrow> None | Some d \<Rightarrow> map_option ((#) d) (more_digits cs))"
| "more_digits [] = Some []"
| "more_digits (c # cs) =
     (if c = CHR ''_'' then int_digits cs
      else (case digit_of c of None \<Rightarrow> None | Some d \<Rightarrow> map_option ((#) d) (more_digits cs)))"

definition decimal :: "int list \<Rightarrow> int" where
  "decimal ds = foldl (\<lambda>acc d. 10 * acc + d) 0 ds"

definition max_str_digits :: nat where
  \<comment> \<open>the interpreter's default limit on the digits of a decimal literal
      (\<open>sys.int_info.default_max_str_digits\<close>); underscores, sign and white space do not count\<close>
  "max_str_digits = 4300"

definition py_int :: "string \<Rightarrow> int option" where
  \<comment> \<open>\<open>int(s)\<close>: \<open>None\<close> where Python raises \<open>ValueError\<close>\<close>
  "py_int s =
     (let t = rev (dropWhile (\<lambda>c. c \<in> set int_whitespace)
                (rev (dropWhile (\<lambda>c. c \<in> set int_whitespace) s)));
          (neg, body) =
            (case t of
               [] \<Rightarrow> (False, [])
             | c # r \<Rightarrow>
                 if c = CHR ''-'' then (True, r)
                 else if c = CHR ''+'' then (False, r)
                 else (False, t))
      in case int_digits body of
           None \<Rightarrow> None
         | Some ds \<Rightarrow>
             if max_str_digits < length ds then None
             else Some (if neg then - decimal ds else decimal ds))"

section \<open>The port scanner: \<open>port_scanner.py\<close>\<close>

text \<open>
  The floats of the command line (\<open>--timeout\<close>, \<open>--delay\<close>) are what \<open>float(str)\<close> gives,
  infinities and not-a-number included. The program does no arithmetic on them: it
  hands them to \<open>settimeout\<close> and \<open>time.sleep\<close>.
\<close>

datatype pyfloat =
    Finite real                        \<comment> \<open>a finite \<open>float\<close>, by its value\<close>
  | Float_inf                          \<comment> \<open>\<open>float('inf')\<close>\<close>
  | Float_neg_inf                      \<comment> \<open>\<open>float('-inf')\<close>\<close>
  | Float_nan                          \<comment> \<open>\<open>float('nan')\<close>\<close>

datatype py_exception =
    ValueError_invalid_literal string       \<comment> \<open>\<open>int(s)\<close> rejected \<open>s\<close>\<close>
  | ValueError_invalid_port_range string    \<comment> \<open>\<open>raise ValueError(f"Invalid port range: {part}")\<close>\<close>
  | ValueError_invalid_port_number int      \<comment> \<open>\<open>raise ValueError(f"Invalid port number: {n}")\<close>\<close>
  | ValueError_max_workers                  \<comment> \<open>\<open>ThreadPoolExecutor(max_workers)\<close>, \<open>max_workers <= 0\<close>\<close>
  | ValueError_sleep_length                 \<comment> \<open>\<open>time.sleep(d)\<close>: sleep length must be non-negative\<close>
  | ValueError_timeout_range                \<comment> \<open>\<open>settimeout(t)\<close>: Timeout value out of range\<close>
  | ValueError_nan                          \<comment> \<open>\<open>time.sleep\<close>, \<open>settimeout\<close>: Invalid value NaN\<close>
  | OverflowError                           \<comment> \<open>a port outside 0-65535 in \<open>connect_ex\<close>; a number of
                                                seconds out of the range of the clock\<close>
  | Gaierror                                \<comment> \<open>\<open>socket.gaierror\<close>: the host does not resolve\<close>
  | OSError nat                             \<comment> \<open>any other fault of the operating system, by errno\<close>

fun is_ValueError :: "py_exception \<Rightarrow> bool" where
  "is_ValueError (ValueError_invalid_literal _) = True"
| "is_ValueError (ValueError_invalid_port_range _) = True"
| "is_ValueError (ValueError_invalid_port_number _) = True"
| "is_ValueError ValueError_max_workers = True"
| "is_ValueError ValueError_sleep_length = True"
| "is_ValueError ValueError_timeout_range = True"
| "is_ValueError ValueError_nan = True"
| "is_ValueError _ = False"

definition ALLOWED_HOSTS :: "string set" where
  "ALLOWED_HOSTS = {''127.0.0.1'', ''localhost'', ''scanme.nmap.org''}"

subsection \<open>\<open>parse_ports\<close>\<close>

definition parse_part :: "string \<Rightarrow> int set \<Rightarrow> py_exception + int set" where
  \<comment> \<open>the body of \<open>for part in parts\<close>, on the set \<open>ports\<close>\<close>
  "parse_part part ports =
     (if CHR ''-'' \<in> set part then
        (case split1 CHR ''-'' part of
           (a, b) \<Rightarrow>
             (case py_int a of
                None \<Rightarrow> Inl (ValueError_invalid_literal a)
              | Some a' \<Rightarrow>
                  (case py_int b of
                     None \<Rightarrow> Inl (ValueError_invalid_literal b)
                   | Some b' \<Rightarrow>
                       if a' < 1 \<or> b' > 65535 \<or> a' > b'
                       then Inl (ValueError_invalid_port_range part)
                       else Inr (ports \<union> {a'..b'}))))
      else
        (case py_int part of
           None \<Rightarrow> Inl (ValueError_invalid_literal part)
         | Some n \<Rightarrow>
             if n < 1 \<or> n > 65535 then Inl (ValueError_invalid_port_number n)
             else Inr (insert n ports)))"

fun parse_loop :: "string list \<Rightarrow> int set \<Rightarrow> py_exception + int set" where
  "parse_loop [] ports = Inr ports"
| "parse_loop (part # parts) ports =
     (case parse_part part ports of
        Inl e \<Rightarrow> Inl e
      | Inr ports' \<Rightarrow> parse_loop parts ports')"

definition parts_of :: "string \<Rightarrow> string list" where
  \<comment> \<open>\<open>[p.strip() for p in port_spec.split(",") if p.strip()]\<close>\<close>
  "parts_of port_spec = [strip p. p \<leftarrow> split CHR '','' port_spec, strip p \<noteq> []]"

definition parse_ports :: "string \<Rightarrow> py_exception + int list" where
  "parse_ports port_spec =
     (case parse_loop (parts_of port_spec) {} of
        Inl e \<Rightarrow> Inl e
      | Inr ports \<Rightarrow> Inr (sorted_list_of_set ports))"

subsection \<open>\<open>scan_port\<close>\<close>

text \<open>
  What the library calls of the scanner do is not fixed by the program: it is a
  parameter of the model, the platform. Each call either raises or goes through, and
  the program only reacts to which.
\<close>

record platform =
  sleep_fault :: "pyfloat \<Rightarrow> py_exception option"
    \<comment> \<open>the exception \<open>time.sleep(d)\<close> raises, if any (a negative, not-a-number or too
        large \<open>d\<close>)\<close>
  socket_fault :: "string \<Rightarrow> int \<Rightarrow> py_exception option"
    \<comment> \<open>the exception \<open>socket.socket(AF_INET, SOCK_STREAM)\<close> raises for this probe, if any\<close>
  settimeout_fault :: "pyfloat \<Rightarrow> py_exception option"
    \<comment> \<open>the exception \<open>s.settimeout(t)\<close> raises, if any (a negative, not-a-number or
        too large \<open>t\<close>)\<close>
  connect_ex :: "string \<Rightarrow> int \<Rightarrow> pyfloat \<Rightarrow> py_exception + int"
    \<comment> \<open>\<open>s.connect_ex((host, port))\<close> under the time-out: an errno (0 when connected), or
        an exception\<close>

definition scan_port_try :: "platform \<Rightarrow> string \<Rightarrow> int \<Rightarrow> pyfloat \<Rightarrow> py_exception + int \<times> bool" where
  \<comment> \<open>the \<open>try\<close> block of \<open>scan_port\<close>: \<open>socket.socket\<close>, \<open>settimeout\<close>, \<open>connect_ex\<close>\<close>
  "scan_port_try env h port t =
     (case socket_fault env h port of
        Some e \<Rightarrow> Inl e
      | None \<Rightarrow>
          (case settimeout_fault env t of
             Some e \<Rightarrow> Inl e
           | None \<Rightarrow>
               (case connect_ex env h port t of
                  Inl e \<Rightarrow> Inl e
                | Inr result \<Rightarrow> Inr (port, result = 0))))"

definition scan_port :: "platform \<Rightarrow> string \<Rightarrow> int \<Rightarrow> pyfloat \<Rightarrow> py_exception + int \<times> bool" where
  \<comment> \<open>\<open>except Exception\<close> handles every \<^typ>\<open>py_exception\<close>\<close>
  "scan_port env h port t =
     (case scan_port_try env h port t of
        Inl e \<Rightarrow> Inr (port, False)
      | Inr r \<Rightarrow> Inr r)"

subsection \<open>\<open>main\<close>\<close>

record args =
  args_host :: string
  args_ports :: string
  args_workers :: int
  args_timeout :: pyfloat
  args_delay :: pyfloat

datatype log_msg =
    Refusing string                    \<comment> \<open>\<open>Refusing to scan {host}. Allowed targets: ...\<close>\<close>
  | Bad_port_specification py_exception  \<comment> \<open>\<open>Bad port specification: {e}\<close>\<close>
  | Starting string nat int            \<comment> \<open>\<open>Starting scan on {host} ports={len(ports)} workers={workers}\<close>\<close>
  | Port_status int bool               \<comment> \<open>\<open>Port {port}: OPEN\<close> or \<open>Port {port}: closed\<close>\<close>
  | Scan_complete "int list option"    \<comment> \<open>\<open>Scan complete ... Open ports: {open_ports or 'None'}\<close>\<close>

datatype event =
    Log log_msg
  | Submit string int pyfloat          \<comment> \<open>\<open>ex.submit(scan_port, host, port, timeout)\<close>\<close>
  | Sleep pyfloat                      \<comment> \<open>\<open>time.sleep(delay)\<close> returns\<close>

datatype ending =
    Returned                           \<comment> \<open>\<open>main\<close> returns: exit code 0\<close>
  | Sys_exit int                       \<comment> \<open>\<open>sys.exit(n)\<close>\<close>
  | Uncaught py_exception              \<comment> \<open>a traceback: exit code 1\<close>

fun exit_code :: "ending \<Rightarrow> int" where
  "exit_code Returned = 0"
| "exit_code (Sys_exit n) = n"
| "exit_code (Uncaught e) = 1"

fun submit_loop :: "platform \<Rightarrow> string \<Rightarrow> pyfloat \<Rightarrow> pyfloat \<Rightarrow> int list
                      \<Rightarrow> event list \<times> (py_exception + int list)" where
  \<comment> \<open>\<open>for port in ports: futures[ex.submit(...)] = port; time.sleep(delay)\<close>. A future is
      represented by the port it probes; what \<open>time.sleep\<close> raises leaves the loop.\<close>
  "submit_loop env h t d [] = ([], Inr [])"
| "submit_loop env h t d (port # rest) =
     (case sleep_fault env d of
        Some e \<Rightarrow> ([Submit h port t], Inl e)
      | None \<Rightarrow>
          (case submit_loop env h t d rest of
             (evs, r) \<Rightarrow> (Submit h port t # Sleep d # evs, map_sum id ((#) port) r)))"

fun as_completed :: "nat list \<Rightarrow> 'a list \<Rightarrow> 'a list" where
  \<comment> \<open>\<open>concurrent.futures.as_completed(futures)\<close>: the futures in the order the library
      yields them (those already finished when it is called in the iteration order of a
      set, the others as they finish). The program does not fix that order; the schedule
      \<open>sched\<close> stands for it: each entry picks, by its index, which of the futures not yet
      yielded comes next, and when the entries are used up the others follow in list
      order. Every order of the futures is some schedule's, and no schedule means more
      than the order it gives.\<close>
  "as_completed sched [] = []"
| "as_completed [] (f # fs) = f # fs"
| "as_completed (k # sched) (f # fs) =
     (let i = k mod length (f # fs)
      in (f # fs) ! i # as_completed sched (take i (f # fs) @ drop (Suc i) (f # fs)))"

fun collect :: "(py_exception + int \<times> bool) list \<Rightarrow> int list \<Rightarrow> event list \<times> (py_exception + int list)" where
  \<comment> \<open>the body of \<open>for future in as_completed(futures)\<close>; \<open>future.result()\<close> raises what the
      task raised\<close>
  "collect [] open_ports = ([], Inr open_ports)"
| "collect (Inl e # rs) open_ports = ([], Inl e)"
| "collect (Inr (port, is_open) # rs) open_ports =
     (case collect rs (if is_open then open_ports @ [port] else open_ports) of
        (evs, r) \<Rightarrow> (Log (Port_status port is_open) # evs, r))"

definition sweep :: "args \<Rightarrow> platform \<Rightarrow> nat list \<Rightarrow> int list \<Rightarrow> event list \<times> ending" where
  \<comment> \<open>\<open>main\<close> from \<open>log(f"Starting scan ...")\<close> on\<close>
  "sweep args env sched port_list =
     (let start = [Log (Starting (args_host args) (length port_list) (args_workers args))]
      in if args_workers args \<le> 0 then (start, Uncaught ValueError_max_workers)
         else (case submit_loop env (args_host args) (args_timeout args) (args_delay args)
                      port_list of
                 (subs, Inl e) \<Rightarrow> (start @ subs, Uncaught e)
               | (subs, Inr futures) \<Rightarrow>
                   (case collect
                           (map (\<lambda>port. scan_port env (args_host args) port (args_timeout args))
                                (as_completed sched futures)) [] of
                      (logs, Inl e) \<Rightarrow> (start @ subs @ logs, Uncaught e)
                    | (logs, Inr open_ports) \<Rightarrow>
                        (start @ subs @ logs
                           @ [Log (Scan_complete (if open_ports = [] then None else Some open_ports))],
                         Returned))))"

definition main :: "args \<Rightarrow> platform \<Rightarrow> nat list \<Rightarrow> event list \<times> ending" where
  "main args env sched =
     (if args_host args \<notin> ALLOWED_HOSTS
      then ([Log (Refusing (args_host args))], Sys_exit 1)
      else (case parse_ports (args_ports args) of
              Inl e \<Rightarrow>
                if is_ValueError e then ([Log (Bad_port_specification e)], Sys_exit 1)
                else ([], Uncaught e)
            | Inr port_list \<Rightarrow> sweep args env sched port_list))"

definition seconds_fault :: "py_exception \<Rightarrow> pyfloat \<Rightarrow> py_exception option" where
  \<comment> \<open>how CPython 3.11 on Linux takes a float as a number of seconds, in \<open>time.sleep\<close>
      and in \<open>settimeout\<close>: the nanoseconds, rounded away from zero, must fit 64 bits
      (the bounds are those of the rounding of doubles), and must not be negative, on
      which the call raises its own \<open>ValueError\<close>, here \<open>negative\<close>\<close>
  "seconds_fault negative x =
     (case x of
        Float_nan \<Rightarrow> Some ValueError_nan
      | Float_inf \<Rightarrow> Some OverflowError
      | Float_neg_inf \<Rightarrow> Some OverflowError
      | Finite r \<Rightarrow>
          if r * 10 ^ 9 < - (2 ^ 63) - 1024 \<or> 2 ^ 63 - 512 \<le> r * 10 ^ 9 then Some OverflowError
          else if r < 0 then Some negative
          else None)"

definition stub_transport :: platform where
  \<comment> \<open>a platform on which ports 22 and 80 connect and every other port is refused
      (errno 111), with the clock of \<open>seconds_fault\<close>\<close>
  "stub_transport =
     \<lparr>sleep_fault = seconds_fault ValueError_sleep_length,
      socket_fault = (\<lambda>h port. None),
      settimeout_fault = seconds_fault ValueError_timeout_range,
      connect_ex = (\<lambda>h port t. Inr (if port = 22 \<or> port = 80 then 0 else 111))\<rparr>"

definition stub_args :: "string \<Rightarrow> int \<Rightarrow> pyfloat \<Rightarrow> args" where
  \<comment> \<open>\<open>--host localhost --ports spec --workers w --delay d\<close>, the time-out at its default\<close>
  "stub_args spec w d =
     \<lparr>args_host = ''localhost'', args_ports = spec, args_workers = w,
      args_timeout = Finite 0.5, args_delay = d\<rparr>"

section \<open>The interactive client: \<open>theClient.py\<close>\<close>

datatype sock_exception =
    ConnectionRefusedError
  | Socket_timeout                     \<comment> \<open>\<open>socket.timeout\<close>\<close>
  | BrokenPipeError
  | Other_exception string             \<comment> \<open>any other subclass of \<open>Exception\<close>\<close>

datatype input_event =
    Line string                        \<comment> \<open>\<open>input(...)\<close> returns this line\<close>
  | Interrupt                          \<comment> \<open>\<open>input(...)\<close> raises \<open>KeyboardInterrupt\<close>\<close>

record peer_step =
  sendall_fault :: "sock_exception option"
    \<comment> \<open>what \<open>sock.sendall\<close> raises, if anything\<close>
  recv_result :: "sock_exception + string"
    \<comment> \<open>what \<open>sock.recv(4096)\<close> raises or returns\<close>

datatype client_log =
    Attempting
  | Connected
  | Input_interrupted                  \<comment> \<open>\<open>Input interrupted, disconnecting.\<close>\<close>
  | Requested_disconnect               \<comment> \<open>\<open>Requested disconnect.\<close>\<close>
  | Closed_BrokenPipe                  \<comment> \<open>\<open>Server closed connection (BrokenPipe).\<close>\<close>
  | Closed_by_server                   \<comment> \<open>\<open>Server closed connection.\<close>\<close>
  | Received string                    \<comment> \<open>\<open>Received: ...\<close>, with the data received\<close>
  | Timed_out_waiting                  \<comment> \<open>\<open>Timed out waiting for server response.\<close>\<close>
  | Connection_refused                 \<comment> \<open>\<open>Connection refused: is the server running?\<close>\<close>
  | Connection_timed_out               \<comment> \<open>\<open>Connection attempt timed out.\<close>\<close>
  | Unexpected_error sock_exception    \<comment> \<open>\<open>Unexpected error: {e}\<close>\<close>

datatype client_event =
    CLog client_log
  | Sendall string                     \<comment> \<open>\<open>sock.sendall(msg.encode())\<close> is called with this \<open>msg\<close>\<close>
  | Close                              \<comment> \<open>the \<open>with\<close> block closes the socket\<close>

fun prepend :: "'a list \<Rightarrow> 'a list \<times> 'b \<Rightarrow> 'a list \<times> 'b" where
  "prepend evs (rest, r) = (evs @ rest, r)"

fun client_loop :: "(nat \<Rightarrow> peer_step) \<Rightarrow> nat \<Rightarrow> input_event list
                      \<Rightarrow> client_event list \<times> sock_exception option" where
  \<comment> \<open>the \<open>while True\<close> loop: \<open>n\<close> counts the messages sent so far, the end of the input
      list is \<open>EOFError\<close>; the result is the exception that leaves the loop, if any\<close>
  "client_loop peer n [] = ([CLog Input_interrupted], None)"
| "client_loop peer n (Interrupt # rest) = ([CLog Input_interrupted], None)"
| "client_loop peer n (Line l # rest) =
     (let msg = strip l
      in if msg = [] then client_loop peer n rest
         else if lower msg \<in> {''quit'', ''exit''} then ([CLog Requested_disconnect], None)
         else (case sendall_fault (peer n) of
                 Some BrokenPipeError \<Rightarrow> ([Sendall msg, CLog Closed_BrokenPipe], None)
               | Some e \<Rightarrow> ([Sendall msg], Some e)
               | None \<Rightarrow>
                   (case recv_result (peer n) of
                      Inr data \<Rightarrow>
                        if data = [] then ([Sendall msg, CLog Closed_by_server], None)
                        else prepend [Sendall msg, CLog (Received data)]
                               (client_loop peer (Suc n) rest)
                    | Inl Socket_timeout \<Rightarrow>
                        prepend [Sendall msg, CLog Timed_out_waiting]
                          (client_loop peer (Suc n) rest)
                    | Inl e \<Rightarrow> ([Sendall msg], Some e))))"

fun handler :: "sock_exception \<Rightarrow> client_log" where
  \<comment> \<open>the \<open>except\<close> clauses of \<open>interactive_client\<close>, in their order\<close>
  "handler ConnectionRefusedError = Connection_refused"
| "handler Socket_timeout = Connection_timed_out"
| "handler e = Unexpected_error e"

definition interactive_client :: "sock_exception option \<Rightarrow> (nat \<Rightarrow> peer_step) \<Rightarrow> input_event list
                                    \<Rightarrow> client_event list" where
  \<comment> \<open>\<open>conn\<close> is what \<open>socket.create_connection\<close> raises, if anything\<close>
  "interactive_client conn peer inputs =
     CLog Attempting #
     (case conn of
        Some e \<Rightarrow> [CLog (handler e)]
      | None \<Rightarrow>
          CLog Connected #
          (case client_loop peer 0 inputs of
             (evs, None) \<Rightarrow> evs @ [Close]
           | (evs, Some e) \<Rightarrow> evs @ [Close, CLog (handler e)]))"

definition echo_peer :: "nat \<Rightarrow> peer_step" where
  \<comment> \<open>a server that takes every message and answers \<open>ok\<close>\<close>
  "echo_peer n = \<lparr>sendall_fault = None, recv_result = Inr ''ok''\<rparr>"

definition closing_peer :: "nat \<Rightarrow> peer_step" where
  \<comment> \<open>a server that takes a message and closes the connection: \<open>recv\<close> returns no data\<close>
  "closing_peer n = \<lparr>sendall_fault = None, recv_result = Inr []\<rparr>"

section \<open>What a run shows\<close>

fun pacing :: "event list \<Rightarrow> event list" where
  \<comment> \<open>the submissions and pauses of a run, in their order\<close>
  "pacing [] = []"
| "pacing (Log m # evs) = pacing evs"
| "pacing (e # evs) = e # pacing evs"

fun probe_results :: "event list \<Rightarrow> (int \<times> bool) list" where
  \<comment> \<open>the per-port results of a run, in the order they are logged\<close>
  "probe_results [] = []"
| "probe_results (Log (Port_status port is_open) # evs) = (port, is_open) # probe_results evs"
| "probe_results (e # evs) = probe_results evs"

fun summaries :: "event list \<Rightarrow> int list list" where
  \<comment> \<open>the open-port list of every completion summary of a run\<close>
  "summaries [] = []"
| "summaries (Log (Scan_complete None) # evs) = [] # summaries evs"
| "summaries (Log (Scan_complete (Some open_ports)) # evs) = open_ports # summaries evs"
| "summaries (e # evs) = summaries evs"

fun sent :: "client_event list \<Rightarrow> string list" where
  \<comment> \<open>the messages the client hands to \<open>sendall\<close>, in their order\<close>
  "sent [] = []"
| "sent (Sendall msg # evs) = msg # sent evs"
| "sent (e # evs) = sent evs"

fun lines_read :: "input_event list \<Rightarrow> string list" where
  \<comment> \<open>the lines typed, stripped, up to the first interrupt or the first line that is
      \<open>quit\<close> or \<open>exit\<close> in any letter case, the blank ones left out\<close>
  "lines_read [] = []"
| "lines_read (Interrupt # rest) = []"
| "lines_read (Line l # rest) =
     (if strip l = [] then lines_read rest
      else if lower (strip l) \<in> {''quit'', ''exit''} then []
      else strip l # lines_read rest)"

definition answering :: "(nat \<Rightarrow> peer_step) \<Rightarrow> bool" where
  \<comment> \<open>a server that takes every message and answers each with some data\<close>
  "answering peer =
     (\<forall>k. sendall_fault (peer k) = None
          \<and> (\<exists>data. data \<noteq> [] \<and> recv_result (peer k) = Inr data))"

definition scripted_peer :: "peer_step list \<Rightarrow> nat \<Rightarrow> peer_step" where
  \<comment> \<open>a server that behaves as listed, exchange by exchange, and then closes\<close>
  "scripted_peer steps n =
     (if n < length steps then steps ! n else \<lparr>sendall_fault = None, recv_result = Inr []\<rparr>)"

definition ends_exchange :: "peer_step \<Rightarrow> bool" where
  \<comment> \<open>an exchange after which the connection is of no use: \<open>sendall\<close> raises, or \<open>recv\<close>
      returns no data or raises anything but a time-out\<close>
  "ends_exchange step =
     (sendall_fault step \<noteq> None \<or> recv_result step = Inr []
      \<or> (\<exists>e. recv_result step = Inl e \<and> e \<noteq> Socket_timeout))"

definition connects :: "platform \<Rightarrow> string \<Rightarrow> int \<Rightarrow> pyfloat \<Rightarrow> bool" where
  \<comment> \<open>the probe of this port succeeds: a socket is made, the time-out is accepted and
      \<open>connect_ex\<close> returns 0\<close>
  "connects env h port t =
     (socket_fault env h port = None \<and> settimeout_fault env t = None
      \<and> connect_ex env h port t = Inr 0)"

definition faulty_transport :: platform where
  \<comment> \<open>a platform with faults: no socket for port 1, no address for port 2, a time-out
      (errno 110) on every other port, with the clock of \<open>seconds_fault\<close>\<close>
  "faulty_transport =
     \<lparr>sleep_fault = seconds_fault ValueError_sleep_length,
      socket_fault = (\<lambda>h port. if port = 1 then Some (OSError 24) else None),
      settimeout_fault = seconds_fault ValueError_timeout_range,
      connect_ex = (\<lambda>h port t. if port = 2 then Inl Gaierror else Inr 110)\<rparr>"

definition forbidden_args :: args where
  \<comment> \<open>\<open>--host example.com --ports 22\<close>, the other options at their defaults\<close>
  "forbidden_args =
     \<lparr>args_host = ''example.com'', args_ports = ''22'', args_workers = 50,
      args_timeout = Finite 0.5, args_delay = Finite 0.005\<rparr>"

definition sweep_trace :: "args \<Rightarrow> platform \<Rightarrow> nat list \<Rightarrow> int list \<Rightarrow> event list" where
  \<comment> \<open>the events of a sweep that runs to its end: the start line, a submission and a
      pause per port, a result line per port in the order \<open>as_completed\<close> yields the
      futures, the summary\<close>
  "sweep_trace args env sched ps =
     Log (Starting (args_host args) (length ps) (args_workers args))
     # concat (map (\<lambda>p. [Submit (args_host args) p (args_timeout args), Sleep (args_delay args)]) ps)
     @ map (\<lambda>(p, b). Log (Port_status p b))
         (map (\<lambda>p. (p, connects env (args_host args) p (args_timeout args))) (as_completed sched ps))
     @ [Log (Scan_complete
          (if filter (\<lambda>p. connects env (args_host args) p (args_timeout args)) (as_completed sched ps) = []
           then None
           else Some (filter (\<lambda>p. connects env (args_host args) p (args_timeout args))
                        (as_completed sched ps))))]"

section \<open>The specification's reading of a port specification\<close>

definition spec_malformed :: "string \<Rightarrow> bool" where
  \<comment> \<open>the specification's malformed segment: a range \<open>a-b\<close> with a bound that is no
      integer, or \<open>a < 1\<close>, \<open>b > 65535\<close> or \<open>a > b\<close>; a single port that is no integer or lies
      outside 1 to 65535\<close>
  "spec_malformed seg =
     (if CHR ''-'' \<in> set seg then
        (case split1 CHR ''-'' seg of
           (a, b) \<Rightarrow>
             (case (py_int a, py_int b) of
                (Some a', Some b') \<Rightarrow> a' < 1 \<or> 65535 < b' \<or> b' < a'
              | _ \<Rightarrow> True))
      else (case py_int seg of Some n \<Rightarrow> n < 1 \<or> 65535 < n | None \<Rightarrow> True))"

definition spec_segment_ports :: "string \<Rightarrow> int set" where
  \<comment> \<open>the ports a segment lists: the inclusive range \<open>a-b\<close>, or the single port\<close>
  "spec_segment_ports seg =
     (if CHR ''-'' \<in> set seg then
        (case split1 CHR ''-'' seg of
           (a, b) \<Rightarrow>
             (case (py_int a, py_int b) of
                (Some a', Some b') \<Rightarrow> {a'..b'}
              | _ \<Rightarrow> {}))
      else (case py_int seg of Some n \<Rightarrow> {n} | None \<Rightarrow> {}))"

section \<open>The port specification parser\<close>

lemma parse_part_Inr_iff:
  "parse_part seg P = Inr Q \<longleftrightarrow> \<not> spec_malformed seg \<and> Q = P \<union> spec_segment_ports seg"
  by (auto simp: parse_part_def spec_malformed_def spec_segment_ports_def
           split: prod.splits option.splits)

lemma parse_part_Inl_iff:
  "isl (parse_part seg P) \<longleftrightarrow> spec_malformed seg"
  by (auto simp: parse_part_def spec_malformed_def split: prod.splits option.splits)

lemma parse_part_ValueError:
  "parse_part seg P = Inl e \<Longrightarrow> is_ValueError e"
  by (auto simp: parse_part_def split: prod.splits option.splits if_splits)

lemma well_formed_segment_range:
  "\<not> spec_malformed seg \<Longrightarrow> spec_segment_ports seg \<subseteq> {1..65535}"
  by (auto simp: spec_malformed_def spec_segment_ports_def
           split: prod.splits option.splits if_splits)

lemma parse_loop_Inr_iff:
  "parse_loop segs P = Inr Q \<longleftrightarrow>
     (\<forall>seg \<in> set segs. \<not> spec_malformed seg)
     \<and> Q = P \<union> (\<Union>seg \<in> set segs. spec_segment_ports seg)"
proof (induction segs arbitrary: P)
  case Nil
  show ?case by auto
next
  case (Cons seg segs)
  show ?case
  proof (cases "parse_part seg P")
    case (Inl e)
    then have "spec_malformed seg"
      using parse_part_Inl_iff [of seg P] by simp
    with Inl show ?thesis by simp
  next
    case (Inr P')
    then have "\<not> spec_malformed seg" and "P' = P \<union> spec_segment_ports seg"
      using parse_part_Inr_iff [of seg P P'] by simp_all
    with Inr Cons.IH [of P'] show ?thesis by auto
  qed
qed

lemma parse_loop_Inl_iff:
  "isl (parse_loop segs P) \<longleftrightarrow> (\<exists>seg \<in> set segs. spec_malformed seg)"
proof (cases "parse_loop segs P")
  case (Inl e)
  then have "\<not> (\<forall>seg \<in> set segs. \<not> spec_malformed seg)"
    using parse_loop_Inr_iff [of segs P] by auto
  with Inl show ?thesis by simp
next
  case (Inr Q)
  with parse_loop_Inr_iff [of segs P Q] show ?thesis by simp
qed

lemma parse_loop_ValueError:
  "parse_loop segs P = Inl e \<Longrightarrow> is_ValueError e"
  by (induction segs arbitrary: P) (auto split: sum.splits dest: parse_part_ValueError)

lemma finite_segments:
  "finite (\<Union>seg \<in> set segs. spec_segment_ports seg)"
  by (auto simp: spec_segment_ports_def split: prod.splits option.splits)

lemma parse_ports_Inr_iff:
  "parse_ports s = Inr ps \<longleftrightarrow>
     (\<forall>seg \<in> set (parts_of s). \<not> spec_malformed seg)
     \<and> ps = sorted_list_of_set (\<Union>seg \<in> set (parts_of s). spec_segment_ports seg)"
proof (cases "parse_loop (parts_of s) {}")
  case (Inl e)
  then have "\<not> (\<forall>seg \<in> set (parts_of s). \<not> spec_malformed seg)"
    using parse_loop_Inl_iff [of "parts_of s" "{}"] by simp
  with Inl show ?thesis by (simp add: parse_ports_def)
next
  case (Inr Q)
  then have "\<forall>seg \<in> set (parts_of s). \<not> spec_malformed seg"
    and "Q = (\<Union>seg \<in> set (parts_of s). spec_segment_ports seg)"
    using parse_loop_Inr_iff [of "parts_of s" "{}" Q] by simp_all
  with Inr show ?thesis by (auto simp: parse_ports_def)
qed

lemma parse_ports_sorted:
  assumes "parse_ports s = Inr ps"
  shows "sorted_wrt (<) ps" and "distinct ps"
    and "set ps = (\<Union>seg \<in> set (parts_of s). spec_segment_ports seg)"
    and "set ps \<subseteq> {1..65535}"
proof -
  let ?U = "\<Union>seg \<in> set (parts_of s). spec_segment_ports seg"
  from assms have ok: "\<forall>seg \<in> set (parts_of s). \<not> spec_malformed seg"
    and ps: "ps = sorted_list_of_set ?U"
    by (simp_all add: parse_ports_Inr_iff)
  have fin: "finite ?U" by (rule finite_segments)
  show "sorted_wrt (<) ps" and "distinct ps" by (simp_all add: ps)
  show eq: "set ps = ?U" using fin by (simp add: ps)
  have "?U \<subseteq> {1..65535}" using ok well_formed_segment_range by blast
  then show "set ps \<subseteq> {1..65535}" using eq by simp
qed

text \<open>
  C2. For every valid port specification (no segment malformed) \<open>parse_ports\<close> returns a
  list that is strictly ascending, free of duplicates, whose elements are exactly the
  union of the listed single ports and inclusive ranges, each between 1 and 65535; and
  \<open>80,75-85,82\<close> yields 75 to 85.
\<close>

theorem parse_ports_union:
  "((\<forall>seg \<in> set (parts_of s). \<not> spec_malformed seg) \<longrightarrow>
      (\<exists>ps. parse_ports s = Inr ps
         \<and> sorted_wrt (<) ps \<and> distinct ps
         \<and> set ps = (\<Union>seg \<in> set (parts_of s). spec_segment_ports seg)
         \<and> (\<forall>p \<in> set ps. 1 \<le> p \<and> p \<le> 65535)))
   \<and> parse_ports ''80,75-85,82'' = Inr [75, 76, 77, 78, 79, 80, 81, 82, 83, 84, 85]"
proof (intro conjI impI)
  let ?U = "\<Union>seg \<in> set (parts_of s). spec_segment_ports seg"
  assume ok: "\<forall>seg \<in> set (parts_of s). \<not> spec_malformed seg"
  then have val: "parse_ports s = Inr (sorted_list_of_set ?U)"
    by (simp add: parse_ports_Inr_iff)
  from parse_ports_sorted [OF val] val
  show "\<exists>ps. parse_ports s = Inr ps
         \<and> sorted_wrt (<) ps \<and> distinct ps
         \<and> set ps = ?U \<and> (\<forall>p \<in> set ps. 1 \<le> p \<and> p \<le> 65535)"
    by auto
next
  show "parse_ports ''80,75-85,82'' = Inr [75, 76, 77, 78, 79, 80, 81, 82, 83, 84, 85]"
    by code_simp
qed

theorem parse_ports_union_witness:
  "parts_of ''22,80,1000-1003'' = [''22'', ''80'', ''1000-1003'']
   \<and> \<not> spec_malformed ''22'' \<and> \<not> spec_malformed ''80'' \<and> \<not> spec_malformed ''1000-1003''
   \<and> parse_ports ''22,80,1000-1003'' = Inr [22, 80, 1000, 1001, 1002, 1003]
   \<and> (\<Union>seg \<in> set (parts_of ''22,80,1000-1003''). spec_segment_ports seg)
       = set [22, 80, 1000, 1001, 1002, 1003]"
proof -
  have segs: "parts_of ''22,80,1000-1003'' = [''22'', ''80'', ''1000-1003'']"
    by code_simp
  have wf: "\<not> spec_malformed ''22''" "\<not> spec_malformed ''80''"
    "\<not> spec_malformed ''1000-1003''"
    by code_simp+
  then have ok: "\<forall>seg \<in> set (parts_of ''22,80,1000-1003''). \<not> spec_malformed seg"
    by (simp add: segs)
  have val: "parse_ports ''22,80,1000-1003'' = Inr [22, 80, 1000, 1001, 1002, 1003]"
    by code_simp
  from ok parse_ports_union [of "''22,80,1000-1003''"]
  have "set [22, 80, 1000, 1001, 1002, 1003 :: int]
          = (\<Union>seg \<in> set (parts_of ''22,80,1000-1003''). spec_segment_ports seg)"
    unfolding val by blast
  with segs wf val show ?thesis by simp
qed

text \<open>
  C3. \<open>parse_ports\<close> fails exactly when some non-blank segment is malformed, and then
  with a \<open>ValueError\<close>, the one error kind of the parser: a range with \<open>a < 1\<close>,
  \<open>b > 65535\<close> or \<open>a > b\<close>, a single port outside 1 to 65535, or a token that is no
  integer. \<open>0-10\<close>, \<open>70000\<close>, \<open>10-5\<close> and \<open>abc\<close> fail.
\<close>

theorem parse_ports_fails_iff:
  "(isl (parse_ports s) \<longleftrightarrow> (\<exists>seg \<in> set (parts_of s). spec_malformed seg))
   \<and> (\<forall>e. parse_ports s = Inl e \<longrightarrow> is_ValueError e)
   \<and> parse_ports ''0-10'' = Inl (ValueError_invalid_port_range ''0-10'')
   \<and> parse_ports ''70000'' = Inl (ValueError_invalid_port_number 70000)
   \<and> parse_ports ''10-5'' = Inl (ValueError_invalid_port_range ''10-5'')
   \<and> parse_ports ''abc'' = Inl (ValueError_invalid_literal ''abc'')"
proof (intro conjI allI impI)
  have "isl (parse_ports s) = isl (parse_loop (parts_of s) {})"
    by (simp add: parse_ports_def split: sum.splits)
  then show "isl (parse_ports s) \<longleftrightarrow> (\<exists>seg \<in> set (parts_of s). spec_malformed seg)"
    by (simp add: parse_loop_Inl_iff)
next
  fix e assume "parse_ports s = Inl e"
  then have "parse_loop (parts_of s) {} = Inl e"
    by (simp add: parse_ports_def split: sum.splits)
  then show "is_ValueError e" by (rule parse_loop_ValueError)
next
  show "parse_ports ''0-10'' = Inl (ValueError_invalid_port_range ''0-10'')"
    by code_simp
next
  show "parse_ports ''70000'' = Inl (ValueError_invalid_port_number 70000)"
    by code_simp
next
  show "parse_ports ''10-5'' = Inl (ValueError_invalid_port_range ''10-5'')"
    by code_simp
next
  show "parse_ports ''abc'' = Inl (ValueError_invalid_literal ''abc'')"
    by code_simp
qed

theorem parse_ports_fails_iff_witness:
  "parse_ports ''22,1-x'' = Inl (ValueError_invalid_literal ''x'')
   \<and> is_ValueError (ValueError_invalid_literal ''x'')
   \<and> (\<exists>seg \<in> set (parts_of ''22,1-x''). spec_malformed seg)"
proof -
  have val: "parse_ports ''22,1-x'' = Inl (ValueError_invalid_literal ''x'')"
    by code_simp
  with parse_ports_fails_iff [of "''22,1-x''"] show ?thesis by simp
qed

section \<open>A single probe\<close>

lemma scan_port_eq:
  "scan_port env h port t = Inr (port, connects env h port t)"
  by (auto simp: scan_port_def scan_port_try_def connects_def split: option.splits sum.splits)

lemma seconds_fault_simps [simp]:
  "seconds_fault e Float_nan = Some ValueError_nan"
  "seconds_fault e Float_inf = Some OverflowError"
  "seconds_fault e Float_neg_inf = Some OverflowError"
  "seconds_fault e (Finite r) =
     (if r * 1000000000 < - 9223372036854776832 \<or> 9223372036854775296 \<le> r * 1000000000
      then Some OverflowError
      else if r < 0 then Some e else None)"
  by (simp_all add: seconds_fault_def)

text \<open>
  C5. \<open>scan_port\<close> always returns a pair of the port and a boolean and never raises: the
  boolean is true exactly when the socket is made, the time-out accepted and
  \<open>connect_ex\<close> returns 0; whatever the \<open>try\<close> block raises, in \<open>socket.socket\<close>, in
  \<open>settimeout\<close> or in \<open>connect_ex\<close>, yields \<open>(port, False)\<close>, as a non-zero errno does.
\<close>

theorem scan_port_total:
  "scan_port env h port t = Inr (port, connects env h port t)
   \<and> (scan_port_try env h port t = Inl e \<longrightarrow> scan_port env h port t = Inr (port, False))
   \<and> (scan_port_try env h port t = Inr (port, b) \<longrightarrow> scan_port env h port t = Inr (port, b))
   \<and> (socket_fault env h port = Some e \<longrightarrow> scan_port env h port t = Inr (port, False))
   \<and> (settimeout_fault env t = Some e \<longrightarrow> scan_port env h port t = Inr (port, False))
   \<and> (connect_ex env h port t = Inl e \<longrightarrow> scan_port env h port t = Inr (port, False))
   \<and> (connect_ex env h port t = Inr errno \<longrightarrow> errno \<noteq> 0 \<longrightarrow>
        scan_port env h port t = Inr (port, False))"
  by (auto simp: scan_port_def scan_port_try_def connects_def split: option.splits sum.splits)

theorem scan_port_total_witness:
  "scan_port_try faulty_transport ''localhost'' 2 (Finite 0.5) = Inl Gaierror
   \<and> scan_port faulty_transport ''localhost'' 2 (Finite 0.5) = Inr (2, False)
   \<and> scan_port_try stub_transport ''localhost'' 22 (Finite 0.5) = Inr (22, True)
   \<and> scan_port stub_transport ''localhost'' 22 (Finite 0.5) = Inr (22, True)
   \<and> socket_fault faulty_transport ''localhost'' 1 = Some (OSError 24)
   \<and> scan_port faulty_transport ''localhost'' 1 (Finite 0.5) = Inr (1, False)
   \<and> settimeout_fault stub_transport (Finite 10000000000) = Some OverflowError
   \<and> scan_port stub_transport ''localhost'' 22 (Finite 10000000000) = Inr (22, False)
   \<and> connect_ex stub_transport ''localhost'' 81 (Finite 0.5) = Inr 111
   \<and> scan_port stub_transport ''localhost'' 81 (Finite 0.5) = Inr (81, False)"
proof -
  have a: "scan_port_try faulty_transport ''localhost'' 2 (Finite 0.5) = Inl Gaierror"
    by (simp add: scan_port_try_def faulty_transport_def)
  have b: "scan_port_try stub_transport ''localhost'' 22 (Finite 0.5) = Inr (22, True)"
    by (simp add: scan_port_try_def stub_transport_def)
  have c: "socket_fault faulty_transport ''localhost'' 1 = Some (OSError 24)"
    by (simp add: faulty_transport_def)
  have d: "settimeout_fault stub_transport (Finite 10000000000) = Some OverflowError"
    by (simp add: stub_transport_def)
  have e: "connect_ex stub_transport ''localhost'' 81 (Finite 0.5) = Inr 111"
    by (simp add: stub_transport_def)
  from a scan_port_total [of faulty_transport "''localhost''" 2 "Finite 0.5" Gaierror]
  have a': "scan_port faulty_transport ''localhost'' 2 (Finite 0.5) = Inr (2, False)"
    by blast
  from b scan_port_total [of stub_transport "''localhost''" 22 "Finite 0.5" _ True]
  have b': "scan_port stub_transport ''localhost'' 22 (Finite 0.5) = Inr (22, True)"
    by blast
  from c scan_port_total [of faulty_transport "''localhost''" 1 "Finite 0.5" "OSError 24"]
  have c': "scan_port faulty_transport ''localhost'' 1 (Finite 0.5) = Inr (1, False)"
    by blast
  from d scan_port_total [of stub_transport "''localhost''" 22 "Finite 10000000000" OverflowError]
  have d': "scan_port stub_transport ''localhost'' 22 (Finite 10000000000) = Inr (22, False)"
    by blast
  have ne: "(111 :: int) \<noteq> 0" by simp
  from e ne scan_port_total [of stub_transport "''localhost''" 81 "Finite 0.5" Gaierror True 111]
  have e': "scan_port stub_transport ''localhost'' 81 (Finite 0.5) = Inr (81, False)"
    by blast
  from a a' b b' c c' d d' e e' show ?thesis by blast
qed

section \<open>The sweep\<close>

lemma submit_loop_paced:
  "sleep_fault env d = None \<Longrightarrow>
   submit_loop env h t d ps = (concat (map (\<lambda>p. [Submit h p t, Sleep d]) ps), Inr ps)"
  by (induction ps) auto

lemma submit_loop_fault:
  "sleep_fault env d = Some e \<Longrightarrow> submit_loop env h t d (p # ps) = ([Submit h p t], Inl e)"
  by simp

lemma mset_as_completed: "mset (as_completed sched fs) = mset fs"
proof (induction sched fs rule: as_completed.induct)
  case (3 k sched f fs)
  let ?xs = "f # fs"
  let ?i = "k mod length ?xs"
  have i: "?i < length ?xs" by simp
  have "mset (?xs ! ?i # (take ?i ?xs @ drop (Suc ?i) ?xs))
          = mset (take ?i ?xs @ ?xs ! ?i # drop (Suc ?i) ?xs)"
    by simp
  also have "\<dots> = mset ?xs"
    using id_take_nth_drop [OF i] by simp
  finally have step: "mset (?xs ! ?i # (take ?i ?xs @ drop (Suc ?i) ?xs)) = mset ?xs" .
  have "mset (as_completed (k # sched) ?xs)
          = mset (?xs ! ?i # as_completed sched (take ?i ?xs @ drop (Suc ?i) ?xs))"
    by (simp add: Let_def)
  also have "\<dots> = mset (?xs ! ?i # (take ?i ?xs @ drop (Suc ?i) ?xs))"
    using "3.IH" [of ?i] by simp
  finally show ?case using step by simp
qed simp_all

text \<open>The schedules give every order of the futures, and nothing else.\<close>

lemma every_order_scheduled:
  "mset ys = mset fs \<Longrightarrow> \<exists>sched. as_completed sched fs = ys"
proof (induction ys arbitrary: fs)
  case Nil
  then have "fs = []" by simp
  then show ?case by simp
next
  case (Cons y ys)
  from Cons.prems have "y \<in> set fs" by (metis list.set_intros(1) mset_eq_setD)
  then obtain i where i: "i < length fs" and y: "fs ! i = y"
    by (auto simp: in_set_conv_nth)
  let ?rest = "take i fs @ drop (Suc i) fs"
  have "fs = take i fs @ y # drop (Suc i) fs"
    using id_take_nth_drop [OF i] y by simp
  then have "mset fs = mset ?rest + {#y#}"
    by (metis add_mset_add_single mset.simps(2) mset_append union_mset_add_mset_right)
  with Cons.prems have "mset ys = mset ?rest" by simp
  then obtain sched where s: "as_completed sched ?rest = ys"
    using Cons.IH by blast
  from i obtain f fs' where fs: "fs = f # fs'" by (cases fs) auto
  have "as_completed (i # sched) fs = fs ! i # as_completed sched ?rest"
    using i by (simp add: fs Let_def)
  with s y have "as_completed (i # sched) fs = y # ys" by simp
  then show ?case by blast
qed

lemma set_as_completed: "set (as_completed sched fs) = set fs"
  using mset_as_completed [of sched fs] by (metis set_mset_mset)

lemma distinct_as_completed: "distinct (as_completed sched fs) = distinct fs"
  using mset_as_completed [of sched fs] by (metis mset_eq_imp_distinct_iff)

lemma collect_results:
  "collect (map Inr rs) acc =
     (map (\<lambda>(p, b). Log (Port_status p b)) rs, Inr (acc @ map fst (filter snd rs)))"
  by (induction rs arbitrary: acc) (auto split: prod.splits)

lemma probe_results_logs [simp]:
  "probe_results (map (\<lambda>(p, b). Log (Port_status p b)) rs @ evs) = rs @ probe_results evs"
  by (induction rs) auto

lemma probe_results_pacing [simp]:
  "probe_results (concat (map (\<lambda>p. [Submit h p t, Sleep d]) ps) @ evs) = probe_results evs"
  by (induction ps) auto

lemma pacing_logs [simp]:
  "pacing (map (\<lambda>(p, b). Log (Port_status p b)) rs @ evs) = pacing evs"
  by (induction rs) auto

lemma pacing_submissions [simp]:
  "pacing (concat (map (\<lambda>p. [Submit h p t, Sleep d]) ps) @ evs)
     = concat (map (\<lambda>p. [Submit h p t, Sleep d]) ps) @ pacing evs"
  by (induction ps) auto

lemma summaries_logs [simp]:
  "summaries (map (\<lambda>(p, b). Log (Port_status p b)) rs @ evs) = summaries evs"
  by (induction rs) auto

lemma summaries_submissions [simp]:
  "summaries (concat (map (\<lambda>p. [Submit h p t, Sleep d]) ps) @ evs) = summaries evs"
  by (induction ps) auto

lemma scan_results:
  "map (\<lambda>port. scan_port env h port t) xs = map Inr (map (\<lambda>p. (p, connects env h p t)) xs)"
  by (simp add: scan_port_eq)

lemma open_of_results:
  "map fst (filter snd (map (\<lambda>p. (p, P p)) xs)) = filter P xs"
  by (induction xs) auto

lemma sweep_returns:
  assumes "0 < args_workers args" and "sleep_fault env (args_delay args) = None"
  shows "sweep args env sched ps = (sweep_trace args env sched ps, Returned)"
  using assms
  by (simp add: sweep_def sweep_trace_def submit_loop_paced scan_results collect_results
        open_of_results del: map_map)

lemma sweep_no_workers:
  "args_workers args \<le> 0 \<Longrightarrow>
   sweep args env sched ps =
     ([Log (Starting (args_host args) (length ps) (args_workers args))],
      Uncaught ValueError_max_workers)"
  by (simp add: sweep_def)

lemma sweep_sleep_fault:
  "0 < args_workers args \<Longrightarrow> sleep_fault env (args_delay args) = Some e \<Longrightarrow>
   sweep args env sched (p # ps) =
     ([Log (Starting (args_host args) (Suc (length ps)) (args_workers args)),
       Submit (args_host args) p (args_timeout args)], Uncaught e)"
  by (simp add: sweep_def)

lemma sweep_Returned_iff:
  "snd (sweep args env sched ps) = Returned \<longleftrightarrow>
     0 < args_workers args \<and> (sleep_fault env (args_delay args) = None \<or> ps = [])"
proof (cases "0 < args_workers args")
  case False
  then show ?thesis by (simp add: sweep_def)
next
  case w: True
  show ?thesis
  proof (cases "sleep_fault env (args_delay args)")
    case None
    with w show ?thesis by (simp add: sweep_returns)
  next
    case (Some e)
    with w show ?thesis
      by (cases ps) (simp_all add: sweep_def)
  qed
qed

lemma sweep_starts:
  "\<exists>rest. fst (sweep args env sched ps)
            = Log (Starting (args_host args) (length ps) (args_workers args)) # rest"
  by (auto simp: sweep_def Let_def split: prod.splits sum.splits)

lemma sweep_no_exit: "snd (sweep args env sched ps) \<noteq> Sys_exit n"
  by (auto simp: sweep_def Let_def split: prod.splits sum.splits)

lemma summaries_sweep_trace:
  "summaries (sweep_trace args env sched ps)
     = [filter (\<lambda>p. connects env (args_host args) p (args_timeout args)) (as_completed sched ps)]"
  by (simp add: sweep_trace_def del: map_map)

lemma probe_results_sweep_trace:
  "probe_results (sweep_trace args env sched ps)
     = map (\<lambda>p. (p, connects env (args_host args) p (args_timeout args))) (as_completed sched ps)"
  by (simp add: sweep_trace_def del: map_map)

lemma pacing_sweep_trace:
  "pacing (sweep_trace args env sched ps)
     = concat (map (\<lambda>p. [Submit (args_host args) p (args_timeout args), Sleep (args_delay args)]) ps)"
  by (simp add: sweep_trace_def del: map_map)

lemma sweep_Returned_trace:
  assumes "sweep args env sched ps = (evs, Returned)"
  shows "evs = sweep_trace args env sched ps"
proof -
  from assms have "snd (sweep args env sched ps) = Returned" by simp
  then have w: "0 < args_workers args"
    and d: "sleep_fault env (args_delay args) = None \<or> ps = []"
    by (simp_all add: sweep_Returned_iff)
  show ?thesis
  proof (cases "sleep_fault env (args_delay args)")
    case None
    with w assms show ?thesis by (simp add: sweep_returns)
  next
    case (Some e)
    with d have "ps = []" by simp
    with w assms show ?thesis by (auto simp: sweep_def sweep_trace_def)
  qed
qed

lemma main_Returned:
  assumes "main args env sched = (evs, Returned)"
  shows "\<exists>ps. parse_ports (args_ports args) = Inr ps \<and> evs = sweep_trace args env sched ps"
proof (cases "parse_ports (args_ports args)")
  case (Inl e)
  with assms show ?thesis by (simp add: main_def split: if_splits)
next
  case (Inr ps)
  with assms have "sweep args env sched ps = (evs, Returned)"
    by (simp add: main_def split: if_splits)
  then have "evs = sweep_trace args env sched ps" by (rule sweep_Returned_trace)
  with Inr show ?thesis by simp
qed

lemma main_allowed:
  assumes "args_host args \<in> ALLOWED_HOSTS" and "parse_ports (args_ports args) = Inr ps"
  shows "main args env sched = sweep args env sched ps"
  using assms by (simp add: main_def)

lemma main_bad_spec:
  assumes "args_host args \<in> ALLOWED_HOSTS" and "parse_ports (args_ports args) = Inl e"
  shows "main args env sched = ([Log (Bad_port_specification e)], Sys_exit 1)"
proof -
  from assms(2) have "parse_loop (parts_of (args_ports args)) {} = Inl e"
    by (simp add: parse_ports_def split: sum.splits)
  then have "is_ValueError e" by (rule parse_loop_ValueError)
  with assms show ?thesis by (simp add: main_def)
qed

lemma stub_args_sel [simp]:
  "args_host (stub_args s w d) = ''localhost''"
  "args_ports (stub_args s w d) = s"
  "args_workers (stub_args s w d) = w"
  "args_timeout (stub_args s w d) = Finite 0.5"
  "args_delay (stub_args s w d) = d"
  by (simp_all add: stub_args_def)

lemma localhost_allowed: "''localhost'' \<in> ALLOWED_HOSTS"
  by (simp add: ALLOWED_HOSTS_def)

lemma stub_clock [simp]:
  "sleep_fault stub_transport = seconds_fault ValueError_sleep_length"
  "settimeout_fault stub_transport = seconds_fault ValueError_timeout_range"
  "sleep_fault faulty_transport = seconds_fault ValueError_sleep_length"
  "settimeout_fault faulty_transport = seconds_fault ValueError_timeout_range"
  by (simp_all add: stub_transport_def faulty_transport_def)

lemma connects_stub:
  "connects stub_transport h p t \<longleftrightarrow>
     seconds_fault ValueError_timeout_range t = None \<and> (p = 22 \<or> p = 80)"
  by (auto simp: connects_def stub_transport_def)

lemma stub_main:
  assumes "parse_ports s = Inr ps" and "0 < w" and "sleep_fault env d = None"
  shows "main (stub_args s w d) env sched = (sweep_trace (stub_args s w d) env sched ps, Returned)"
proof -
  have "main (stub_args s w d) env sched = sweep (stub_args s w d) env sched ps"
    by (rule main_allowed) (simp_all add: localhost_allowed assms)
  also have "\<dots> = (sweep_trace (stub_args s w d) env sched ps, Returned)"
    by (rule sweep_returns) (simp_all add: assms)
  finally show ?thesis .
qed

section \<open>The allow-list guard\<close>

lemma submit_loop_no_log: "Log m \<notin> set (fst (submit_loop env h t d ps))"
  by (induction ps) (auto split: prod.splits option.splits)

lemma collect_no_refusing: "Log (Refusing x) \<notin> set (fst (collect rs acc))"
  by (induction rs acc rule: collect.induct) (auto split: prod.splits)

lemma sweep_no_refusing: "Log (Refusing x) \<notin> set (fst (sweep args env sched ps))"
  using submit_loop_no_log [of "Refusing x" env "args_host args" "args_timeout args" "args_delay args" ps]
    collect_no_refusing [of x]
  apply (auto simp: sweep_def Let_def split: prod.splits sum.splits)
  apply (metis fst_conv)+
  done

text \<open>
  C4. The allow-list is the three fixed hosts. For a host outside it \<open>main\<close> logs the
  refusal and exits with code 1, whatever the platform would do, and submits no probe.
  For a host in it \<open>main\<close> passes the guard: it logs no refusal and goes on to the port
  specification, where it either exits on a bad specification or logs the start of the
  scan and does not end in \<open>sys.exit\<close>; with a positive worker count and a delay that
  \<open>time.sleep\<close> takes it returns with exit code 0.
\<close>

theorem forbidden_target_guard:
  "ALLOWED_HOSTS = {''127.0.0.1'', ''localhost'', ''scanme.nmap.org''}
   \<and> (args_host args \<notin> ALLOWED_HOSTS \<longrightarrow>
        main args env sched = ([Log (Refusing (args_host args))], Sys_exit 1)
        \<and> exit_code (snd (main args env sched)) = 1
        \<and> pacing (fst (main args env sched)) = [])
   \<and> (args_host args \<in> ALLOWED_HOSTS \<longrightarrow>
        Log (Refusing x) \<notin> set (fst (main args env sched))
        \<and> (parse_ports (args_ports args) = Inl e \<longrightarrow>
             main args env sched = ([Log (Bad_port_specification e)], Sys_exit 1))
        \<and> (parse_ports (args_ports args) = Inr ps \<longrightarrow>
             (\<exists>rest. fst (main args env sched)
                       = Log (Starting (args_host args) (length ps) (args_workers args)) # rest)
             \<and> snd (main args env sched) \<noteq> Sys_exit n
             \<and> (0 < args_workers args \<longrightarrow> sleep_fault env (args_delay args) = None \<longrightarrow>
                  snd (main args env sched) = Returned
                  \<and> exit_code (snd (main args env sched)) = 0)))"
proof (intro conjI impI)
  show "ALLOWED_HOSTS = {''127.0.0.1'', ''localhost'', ''scanme.nmap.org''}"
    by (simp add: ALLOWED_HOSTS_def)
next
  assume "args_host args \<notin> ALLOWED_HOSTS"
  then show "main args env sched = ([Log (Refusing (args_host args))], Sys_exit 1)"
    and "exit_code (snd (main args env sched)) = 1"
    and "pacing (fst (main args env sched)) = []"
    by (simp_all add: main_def)
next
  assume "args_host args \<in> ALLOWED_HOSTS"
  then show "Log (Refusing x) \<notin> set (fst (main args env sched))"
    using sweep_no_refusing [of x args env sched]
    by (auto simp: main_def split: sum.splits)
next
  assume "args_host args \<in> ALLOWED_HOSTS" and "parse_ports (args_ports args) = Inl e"
  then show "main args env sched = ([Log (Bad_port_specification e)], Sys_exit 1)"
    by (rule main_bad_spec)
next
  assume h: "args_host args \<in> ALLOWED_HOSTS" and p: "parse_ports (args_ports args) = Inr ps"
  have m: "main args env sched = sweep args env sched ps"
    using h p by (rule main_allowed)
  show "\<exists>rest. fst (main args env sched)
                 = Log (Starting (args_host args) (length ps) (args_workers args)) # rest"
    unfolding m by (rule sweep_starts)
  show "snd (main args env sched) \<noteq> Sys_exit n"
    unfolding m by (rule sweep_no_exit)
  assume "0 < args_workers args" and "sleep_fault env (args_delay args) = None"
  then have r: "snd (main args env sched) = Returned"
    unfolding m by (simp add: sweep_Returned_iff)
  then show "snd (main args env sched) = Returned"
    and "exit_code (snd (main args env sched)) = 0"
    by simp_all
qed

theorem forbidden_target_guard_witness:
  "args_host forbidden_args \<notin> ALLOWED_HOSTS
   \<and> main forbidden_args faulty_transport [] = ([Log (Refusing ''example.com'')], Sys_exit 1)
   \<and> args_host (stub_args ''22'' 50 (Finite 0.005)) \<in> ALLOWED_HOSTS
   \<and> parse_ports (args_ports (stub_args ''22'' 50 (Finite 0.005))) = Inr [22]
   \<and> 0 < args_workers (stub_args ''22'' 50 (Finite 0.005))
   \<and> sleep_fault stub_transport (args_delay (stub_args ''22'' 50 (Finite 0.005))) = None
   \<and> Log (Refusing ''example.com'')
        \<notin> set (fst (main (stub_args ''22'' 50 (Finite 0.005)) stub_transport []))
   \<and> (\<exists>rest. fst (main (stub_args ''22'' 50 (Finite 0.005)) stub_transport [])
               = Log (Starting ''localhost'' 1 50) # rest)
   \<and> snd (main (stub_args ''22'' 50 (Finite 0.005)) stub_transport []) = Returned
   \<and> parse_ports (args_ports (stub_args ''0'' 50 (Finite 0.005)))
       = Inl (ValueError_invalid_port_number 0)
   \<and> main (stub_args ''0'' 50 (Finite 0.005)) stub_transport []
       = ([Log (Bad_port_specification (ValueError_invalid_port_number 0))], Sys_exit 1)"
proof -
  let ?A = "stub_args ''22'' 50 (Finite 0.005)"
  let ?B = "stub_args ''0'' 50 (Finite 0.005)"
  have a: "args_host forbidden_args \<notin> ALLOWED_HOSTS"
    by (simp add: forbidden_args_def ALLOWED_HOSTS_def)
  have c: "args_host forbidden_args = ''example.com''"
    by (simp add: forbidden_args_def)
  have b: "args_host ?A \<in> ALLOWED_HOSTS" "args_host ?B \<in> ALLOWED_HOSTS"
    by (simp_all add: localhost_allowed)
  have "parse_ports ''22'' = Inr [22]" by code_simp
  then have p: "parse_ports (args_ports ?A) = Inr [22]" by simp
  have "parse_ports ''0'' = Inl (ValueError_invalid_port_number 0)" by code_simp
  then have q: "parse_ports (args_ports ?B) = Inl (ValueError_invalid_port_number 0)" by simp
  have w: "0 < args_workers ?A" by simp
  have d: "sleep_fault stub_transport (args_delay ?A) = None" by simp
  from a forbidden_target_guard [of forbidden_args faulty_transport "[]"]
  have r1: "main forbidden_args faulty_transport [] = ([Log (Refusing ''example.com'')], Sys_exit 1)"
    unfolding c by blast
  note t = forbidden_target_guard [of ?A stub_transport "[]" "''example.com''" _ "[22]"]
  from b(1) t have r2: "Log (Refusing ''example.com'') \<notin> set (fst (main ?A stub_transport []))"
    by blast
  from b(1) p t have "\<exists>rest. fst (main ?A stub_transport [])
               = Log (Starting (args_host ?A) (length [22 :: int]) (args_workers ?A)) # rest"
    by blast
  then have r3: "\<exists>rest. fst (main ?A stub_transport []) = Log (Starting ''localhost'' 1 50) # rest"
    by simp
  from b(1) p w d t have r4: "snd (main ?A stub_transport []) = Returned"
    by blast
  from b(2) q
    forbidden_target_guard [of ?B stub_transport "[]" _ "ValueError_invalid_port_number 0"]
  have r5: "main ?B stub_transport []
       = ([Log (Bad_port_specification (ValueError_invalid_port_number 0))], Sys_exit 1)"
    by blast
  from a r1 b(1) p w d r2 r3 r4 q r5 show ?thesis by blast
qed

lemma sort_distinct_set:
  "distinct xs \<Longrightarrow> sort xs = sorted_list_of_set (set xs)"
  by (simp add: sorted_list_of_set_sort_remdups distinct_remdups_id)

lemma sort_strict_sorted:
  assumes "sorted_wrt (<) (ys :: int list)" and "distinct xs" and "set xs = set ys"
  shows "sort xs = ys"
proof -
  have "sort xs = sorted_list_of_set (set ys)"
    using assms(2,3) by (simp add: sort_distinct_set)
  also have "\<dots> = ys"
    using assms(1) by (simp add: sorted_list_of_set.idem_if_sorted_distinct strict_sorted_iff)
  finally show ?thesis .
qed

lemma open_in_logged_order:
  "map fst (filter snd (probe_results (sweep_trace args env sched ps)))
     = filter (\<lambda>p. connects env (args_host args) p (args_timeout args)) (as_completed sched ps)"
  by (simp add: probe_results_sweep_trace open_of_results)

text \<open>
  C1, as the code has it. In a run that completes, the open ports of the summary are
  the ports logged as open, in the order in which their results were logged: the code
  does not sort them. They are exactly the ports whose probe connected, each once, so
  that sorting the list gives them in ascending order; the list itself is ascending
  when the results were logged in ascending port order.
\<close>

theorem summary_in_logged_order:
  "main args env sched = (evs, Returned) \<longrightarrow>
     summaries evs = [map fst (filter snd (probe_results evs))]
     \<and> (\<exists>ps. parse_ports (args_ports args) = Inr ps
           \<and> sort (concat (summaries evs))
               = filter (\<lambda>p. connects env (args_host args) p (args_timeout args)) ps)
     \<and> (sorted_wrt (<) (map fst (probe_results evs)) \<longrightarrow>
          sorted_wrt (<) (concat (summaries evs)))"
proof
  assume "main args env sched = (evs, Returned)"
  then obtain ps where ps: "parse_ports (args_ports args) = Inr ps"
    and evs: "evs = sweep_trace args env sched ps"
    using main_Returned by blast
  let ?c = "\<lambda>p. connects env (args_host args) p (args_timeout args)"
  let ?open = "filter ?c (as_completed sched ps)"
  have s: "summaries evs = [?open]" by (simp add: evs summaries_sweep_trace)
  have l: "map fst (filter snd (probe_results evs)) = ?open"
    unfolding evs by (rule open_in_logged_order)
  have a: "summaries evs = [map fst (filter snd (probe_results evs))]"
    by (simp only: s l)
  have sp: "sorted_wrt (<) ps" and dp: "distinct ps"
    using ps by (rule parse_ports_sorted)+
  have "sort ?open = filter ?c ps"
  proof (rule sort_strict_sorted)
    show "sorted_wrt (<) (filter ?c ps)" using sp by (rule sorted_wrt_filter)
    show "distinct ?open" using dp by (simp add: distinct_as_completed)
    show "set ?open = set (filter ?c ps)" by (simp add: set_as_completed)
  qed
  then have b: "sort (concat (summaries evs)) = filter ?c ps" by (simp add: s)
  have c: "sorted_wrt (<) (map fst (probe_results evs)) \<longrightarrow>
          sorted_wrt (<) (concat (summaries evs))"
  proof
    assume "sorted_wrt (<) (map fst (probe_results evs))"
    then have "sorted_wrt (<) (as_completed sched ps)"
      by (simp add: evs probe_results_sweep_trace comp_def)
    then show "sorted_wrt (<) (concat (summaries evs))"
      by (simp add: s sorted_wrt_filter)
  qed
  from a ps b c show "summaries evs = [map fst (filter snd (probe_results evs))]
     \<and> (\<exists>ps. parse_ports (args_ports args) = Inr ps
           \<and> sort (concat (summaries evs)) = filter ?c ps)
     \<and> (sorted_wrt (<) (map fst (probe_results evs)) \<longrightarrow>
          sorted_wrt (<) (concat (summaries evs)))"
    by blast
qed

lemma stub_run_22_80:
  "main (stub_args ''22,80'' 50 (Finite 0.005)) stub_transport [1] =
     ([Log (Starting ''localhost'' 2 50),
       Submit ''localhost'' 22 (Finite 0.5), Sleep (Finite 0.005),
       Submit ''localhost'' 80 (Finite 0.5), Sleep (Finite 0.005),
       Log (Port_status 80 True), Log (Port_status 22 True),
       Log (Scan_complete (Some [80, 22]))], Returned)"
proof -
  have p: "parse_ports ''22,80'' = Inr [22, 80]" by code_simp
  show ?thesis
    by (simp add: main_def stub_args_def ALLOWED_HOSTS_def p sweep_def scan_port_def
          scan_port_try_def) (simp add: stub_transport_def)
qed

theorem summary_in_logged_order_witness:
  "main (stub_args ''22,80'' 50 (Finite 0.005)) stub_transport [0, 0] =
     ([Log (Starting ''localhost'' 2 50),
       Submit ''localhost'' 22 (Finite 0.5), Sleep (Finite 0.005),
       Submit ''localhost'' 80 (Finite 0.5), Sleep (Finite 0.005),
       Log (Port_status 22 True), Log (Port_status 80 True),
       Log (Scan_complete (Some [22, 80]))], Returned)
   \<and> summaries
        [Log (Starting ''localhost'' 2 50),
         Submit ''localhost'' 22 (Finite 0.5), Sleep (Finite 0.005),
         Submit ''localhost'' 80 (Finite 0.5), Sleep (Finite 0.005),
         Log (Port_status 22 True), Log (Port_status 80 True),
         Log (Scan_complete (Some [22, 80]))]
      = [map fst (filter snd (probe_results
           [Log (Starting ''localhost'' 2 50),
            Submit ''localhost'' 22 (Finite 0.5), Sleep (Finite 0.005),
            Submit ''localhost'' 80 (Finite 0.5), Sleep (Finite 0.005),
            Log (Port_status 22 True), Log (Port_status 80 True),
            Log (Scan_complete (Some [22, 80]))]))]"
proof -
  have p: "parse_ports ''22,80'' = Inr [22, 80]" by code_simp
  have run: "main (stub_args ''22,80'' 50 (Finite 0.005)) stub_transport [0, 0] =
     ([Log (Starting ''localhost'' 2 50),
       Submit ''localhost'' 22 (Finite 0.5), Sleep (Finite 0.005),
       Submit ''localhost'' 80 (Finite 0.5), Sleep (Finite 0.005),
       Log (Port_status 22 True), Log (Port_status 80 True),
       Log (Scan_complete (Some [22, 80]))], Returned)"
    by (simp add: main_def stub_args_def ALLOWED_HOSTS_def p sweep_def scan_port_def
          scan_port_try_def) (simp add: stub_transport_def)
  from run
    summary_in_logged_order [of "stub_args ''22,80'' 50 (Finite 0.005)" stub_transport "[0, 0]"]
  show ?thesis by blast
qed

theorem summary_unsorted_counterexample:
  "main (stub_args ''22,80'' 50 (Finite 0.005)) stub_transport [1] =
     ([Log (Starting ''localhost'' 2 50),
       Submit ''localhost'' 22 (Finite 0.5), Sleep (Finite 0.005),
       Submit ''localhost'' 80 (Finite 0.5), Sleep (Finite 0.005),
       Log (Port_status 80 True), Log (Port_status 22 True),
       Log (Scan_complete (Some [80, 22]))], Returned)
   \<and> \<not> sorted [80, 22 :: int]"
  using stub_run_22_80 by simp

text \<open>
  C7, as the code has it. A completed sweep logs one result per port of the parsed port
  list, each with the outcome of its probe, and the ports of the summary are exactly
  the ports whose probe connected, each once. On a platform where 22 and 80 connect and
  81 does not, sweeping \<open>22,80,81\<close> returns, whatever the order in which the results
  arrive, logs three results, and its summary holds 22 and 80: as a set, and as
  \<open>[22, 80]\<close> once sorted. The order of the list itself is not fixed by the program.
\<close>

theorem sweep_results:
  "(main args env sched = (evs, Returned) \<longrightarrow>
      (\<exists>ps. parse_ports (args_ports args) = Inr ps
         \<and> probe_results evs =
             map (\<lambda>p. (p, connects env (args_host args) p (args_timeout args)))
               (as_completed sched ps)
         \<and> mset (map fst (probe_results evs)) = mset ps
         \<and> set (concat (summaries evs)) =
             {p \<in> set ps. connects env (args_host args) p (args_timeout args)}
         \<and> distinct (concat (summaries evs))))
   \<and> snd (main (stub_args ''22,80,81'' 50 (Finite 0.005)) stub_transport sched) = Returned
   \<and> set (concat (summaries
         (fst (main (stub_args ''22,80,81'' 50 (Finite 0.005)) stub_transport sched))))
       = {22, 80}
   \<and> sort (concat (summaries
         (fst (main (stub_args ''22,80,81'' 50 (Finite 0.005)) stub_transport sched))))
       = [22, 80]
   \<and> length (probe_results
         (fst (main (stub_args ''22,80,81'' 50 (Finite 0.005)) stub_transport sched)))
       = 3"
proof (intro conjI impI)
  assume "main args env sched = (evs, Returned)"
  then obtain ps where ps: "parse_ports (args_ports args) = Inr ps"
    and evs: "evs = sweep_trace args env sched ps"
    using main_Returned by blast
  let ?c = "\<lambda>p. connects env (args_host args) p (args_timeout args)"
  have r: "probe_results evs = map (\<lambda>p. (p, ?c p)) (as_completed sched ps)"
    by (simp add: evs probe_results_sweep_trace)
  have "map fst (probe_results evs) = as_completed sched ps"
    by (simp add: r comp_def)
  then have m: "mset (map fst (probe_results evs)) = mset ps"
    by (simp add: mset_as_completed)
  have s: "concat (summaries evs) = filter ?c (as_completed sched ps)"
    by (simp add: evs summaries_sweep_trace)
  have o: "set (concat (summaries evs)) = {p \<in> set ps. ?c p}"
    by (simp add: s set_as_completed)
  have "distinct ps" using ps by (rule parse_ports_sorted)
  then have d: "distinct (concat (summaries evs))"
    by (simp add: s distinct_as_completed)
  from ps r m o d
  show "\<exists>ps. parse_ports (args_ports args) = Inr ps
         \<and> probe_results evs = map (\<lambda>p. (p, ?c p)) (as_completed sched ps)
         \<and> mset (map fst (probe_results evs)) = mset ps
         \<and> set (concat (summaries evs)) = {p \<in> set ps. ?c p}
         \<and> distinct (concat (summaries evs))"
    by blast
next
  let ?run = "main (stub_args ''22,80,81'' 50 (Finite 0.005)) stub_transport sched"
  let ?open = "filter (\<lambda>p. p = 22 \<or> p = 80) (as_completed sched [22, 80, 81 :: int])"
  have p: "parse_ports ''22,80,81'' = Inr [22, 80, 81]" by code_simp
  have run: "?run = (sweep_trace (stub_args ''22,80,81'' 50 (Finite 0.005)) stub_transport sched
                       [22, 80, 81], Returned)"
    by (rule stub_main [OF p]) simp_all
  have s: "concat (summaries (fst ?run)) = ?open"
    unfolding run by (simp add: summaries_sweep_trace connects_stub)
  show "snd ?run = Returned" unfolding run by simp
  have o: "set ?open = {22, 80}"
    by (auto simp: set_as_completed)
  then show "set (concat (summaries (fst ?run))) = {22, 80}"
    unfolding s .
  have "distinct ?open" by (simp add: distinct_as_completed)
  then have "sort ?open = sorted_list_of_set (set ?open)"
    by (rule sort_distinct_set)
  also have "\<dots> = [22, 80]" unfolding o by simp
  finally show "sort (concat (summaries (fst ?run))) = [22, 80]"
    unfolding s .
  have "length (probe_results (fst ?run)) = length (as_completed sched [22, 80, 81 :: int])"
    unfolding run by (simp add: probe_results_sweep_trace)
  also have "\<dots> = size (mset (as_completed sched [22, 80, 81 :: int]))" by simp
  also have "\<dots> = 3" by (simp only: mset_as_completed) simp
  finally show "length (probe_results (fst ?run)) = 3" .
qed

theorem sweep_results_witness:
  "main (stub_args ''22,80,81'' 50 (Finite 0.005)) stub_transport [2, 0] =
     ([Log (Starting ''localhost'' 3 50),
       Submit ''localhost'' 22 (Finite 0.5), Sleep (Finite 0.005),
       Submit ''localhost'' 80 (Finite 0.5), Sleep (Finite 0.005),
       Submit ''localhost'' 81 (Finite 0.5), Sleep (Finite 0.005),
       Log (Port_status 81 False), Log (Port_status 22 True), Log (Port_status 80 True),
       Log (Scan_complete (Some [22, 80]))], Returned)
   \<and> mset (map fst (probe_results
        [Log (Starting ''localhost'' 3 50),
         Submit ''localhost'' 22 (Finite 0.5), Sleep (Finite 0.005),
         Submit ''localhost'' 80 (Finite 0.5), Sleep (Finite 0.005),
         Submit ''localhost'' 81 (Finite 0.5), Sleep (Finite 0.005),
         Log (Port_status 81 False), Log (Port_status 22 True), Log (Port_status 80 True),
         Log (Scan_complete (Some [22, 80]))])) = mset [22, 80, 81]"
proof -
  let ?tr = "[Log (Starting ''localhost'' 3 50),
       Submit ''localhost'' 22 (Finite 0.5), Sleep (Finite 0.005),
       Submit ''localhost'' 80 (Finite 0.5), Sleep (Finite 0.005),
       Submit ''localhost'' 81 (Finite 0.5), Sleep (Finite 0.005),
       Log (Port_status 81 False), Log (Port_status 22 True), Log (Port_status 80 True),
       Log (Scan_complete (Some [22, 80]))]"
  have p: "parse_ports ''22,80,81'' = Inr [22, 80, 81]" by code_simp
  have run: "main (stub_args ''22,80,81'' 50 (Finite 0.005)) stub_transport [2, 0] = (?tr, Returned)"
    by (simp add: main_def stub_args_def ALLOWED_HOSTS_def p sweep_def scan_port_def
          scan_port_try_def) (simp add: stub_transport_def)
  from run
    sweep_results [of "stub_args ''22,80,81'' 50 (Finite 0.005)" stub_transport "[2, 0]" ?tr]
  obtain ps where "parse_ports (args_ports (stub_args ''22,80,81'' 50 (Finite 0.005))) = Inr ps"
    and m: "mset (map fst (probe_results ?tr)) = mset ps"
    by blast
  then have "ps = [22, 80, 81]" by (simp add: p)
  with run m show ?thesis by blast
qed

theorem open_ports_order_counterexample:
  "main (stub_args ''22,80,81'' 50 (Finite 0.005)) stub_transport [1] =
     ([Log (Starting ''localhost'' 3 50),
       Submit ''localhost'' 22 (Finite 0.5), Sleep (Finite 0.005),
       Submit ''localhost'' 80 (Finite 0.5), Sleep (Finite 0.005),
       Submit ''localhost'' 81 (Finite 0.5), Sleep (Finite 0.005),
       Log (Port_status 80 True), Log (Port_status 22 True), Log (Port_status 81 False),
       Log (Scan_complete (Some [80, 22]))], Returned)
   \<and> [80, 22] \<noteq> [22, 80 :: int]"
proof -
  have p: "parse_ports ''22,80,81'' = Inr [22, 80, 81]" by code_simp
  show ?thesis
    by (simp add: main_def stub_args_def ALLOWED_HOSTS_def p sweep_def scan_port_def
          scan_port_try_def) (simp add: stub_transport_def)
qed

text \<open>
  C6, as the code has it. For an allowed host and a valid port specification the port
  list is ascending. With a positive worker count and a delay that \<open>time.sleep\<close> takes,
  the run submits one probe per port of the list, in that order, each followed by a
  pause of the delay; the sequence does not depend on the worker count, the probes or
  the order of their results. With a worker count of 0 or less nothing is submitted,
  and with a delay that \<open>time.sleep\<close> rejects only the first port is: the run ends with
  the exception.
\<close>

theorem submission_pacing:
  "args_host args \<in> ALLOWED_HOSTS \<longrightarrow> parse_ports (args_ports args) = Inr ps \<longrightarrow>
     sorted_wrt (<) ps
     \<and> (0 < args_workers args \<longrightarrow> sleep_fault env (args_delay args) = None \<longrightarrow>
          pacing (fst (main args env sched)) =
            concat (map (\<lambda>p. [Submit (args_host args) p (args_timeout args),
                               Sleep (args_delay args)]) ps))
     \<and> (args_workers args \<le> 0 \<longrightarrow>
          pacing (fst (main args env sched)) = []
          \<and> snd (main args env sched) = Uncaught ValueError_max_workers)
     \<and> (0 < args_workers args \<longrightarrow> sleep_fault env (args_delay args) = Some e \<longrightarrow>
        ps = p # rest \<longrightarrow>
          pacing (fst (main args env sched)) = [Submit (args_host args) p (args_timeout args)]
          \<and> snd (main args env sched) = Uncaught e)"
proof (intro impI conjI)
  assume h: "args_host args \<in> ALLOWED_HOSTS" and ps: "parse_ports (args_ports args) = Inr ps"
  have m: "main args env sched = sweep args env sched ps"
    using h ps by (rule main_allowed)
  show "sorted_wrt (<) ps" using ps by (rule parse_ports_sorted)
  {
    assume "0 < args_workers args" and "sleep_fault env (args_delay args) = None"
    then have "main args env sched = (sweep_trace args env sched ps, Returned)"
      unfolding m by (rule sweep_returns)
    then show "pacing (fst (main args env sched)) =
            concat (map (\<lambda>p. [Submit (args_host args) p (args_timeout args),
                               Sleep (args_delay args)]) ps)"
      by (simp add: pacing_sweep_trace)
  }
  {
    assume "args_workers args \<le> 0"
    then have "main args env sched =
        ([Log (Starting (args_host args) (length ps) (args_workers args))],
         Uncaught ValueError_max_workers)"
      unfolding m by (rule sweep_no_workers)
    then show "pacing (fst (main args env sched)) = []"
      and "snd (main args env sched) = Uncaught ValueError_max_workers"
      by simp_all
  }
  {
    assume "0 < args_workers args" and "sleep_fault env (args_delay args) = Some e"
      and "ps = p # rest"
    then have "main args env sched =
        ([Log (Starting (args_host args) (Suc (length rest)) (args_workers args)),
          Submit (args_host args) p (args_timeout args)], Uncaught e)"
      unfolding m by (simp add: sweep_sleep_fault)
    then show "pacing (fst (main args env sched)) = [Submit (args_host args) p (args_timeout args)]"
      and "snd (main args env sched) = Uncaught e"
      by simp_all
  }
qed

theorem submission_pacing_witness:
  "args_host (stub_args ''80,22'' 1 (Finite 0)) \<in> ALLOWED_HOSTS
   \<and> parse_ports (args_ports (stub_args ''80,22'' 1 (Finite 0))) = Inr [22, 80]
   \<and> 0 < args_workers (stub_args ''80,22'' 1 (Finite 0))
   \<and> sleep_fault faulty_transport (args_delay (stub_args ''80,22'' 1 (Finite 0))) = None
   \<and> pacing (fst (main (stub_args ''80,22'' 1 (Finite 0)) faulty_transport [1])) =
       [Submit ''localhost'' 22 (Finite 0.5), Sleep (Finite 0),
        Submit ''localhost'' 80 (Finite 0.5), Sleep (Finite 0)]
   \<and> sleep_fault faulty_transport (args_delay (stub_args ''80,22'' 1 Float_nan))
       = Some ValueError_nan
   \<and> pacing (fst (main (stub_args ''80,22'' 1 Float_nan) faulty_transport [1])) =
       [Submit ''localhost'' 22 (Finite 0.5)]
   \<and> snd (main (stub_args ''80,22'' 1 Float_nan) faulty_transport [1]) = Uncaught ValueError_nan
   \<and> args_workers (stub_args ''80,22'' (- 3) (Finite 0)) \<le> 0
   \<and> pacing (fst (main (stub_args ''80,22'' (- 3) (Finite 0)) faulty_transport [1])) = []"
proof -
  let ?A = "stub_args ''80,22'' 1 (Finite 0)"
  let ?B = "stub_args ''80,22'' 1 Float_nan"
  let ?C = "stub_args ''80,22'' (- 3) (Finite 0)"
  have h: "args_host ?A \<in> ALLOWED_HOSTS" "args_host ?B \<in> ALLOWED_HOSTS"
    "args_host ?C \<in> ALLOWED_HOSTS"
    by (simp_all add: localhost_allowed)
  have "parse_ports ''80,22'' = Inr [22, 80]" by code_simp
  then have p: "parse_ports (args_ports ?A) = Inr [22, 80]"
    "parse_ports (args_ports ?B) = Inr [22, 80]" "parse_ports (args_ports ?C) = Inr [22, 80]"
    by simp_all
  have w: "0 < args_workers ?A" "0 < args_workers ?B" "args_workers ?C \<le> 0" by simp_all
  have d: "sleep_fault faulty_transport (args_delay ?A) = None"
    "sleep_fault faulty_transport (args_delay ?B) = Some ValueError_nan"
    by simp_all
  from h(1) p(1) w(1) d(1) submission_pacing [of ?A "[22, 80]" faulty_transport "[1]"]
  have "pacing (fst (main ?A faulty_transport [1])) =
       concat (map (\<lambda>p. [Submit (args_host ?A) p (args_timeout ?A), Sleep (args_delay ?A)])
                 [22, 80])"
    by blast
  then have r1: "pacing (fst (main ?A faulty_transport [1])) =
       [Submit ''localhost'' 22 (Finite 0.5), Sleep (Finite 0),
        Submit ''localhost'' 80 (Finite 0.5), Sleep (Finite 0)]"
    by simp
  from h(2) p(2) w(2) d(2)
    submission_pacing [of ?B "[22, 80]" faulty_transport "[1]" ValueError_nan 22 "[80]"]
  have "pacing (fst (main ?B faulty_transport [1]))
          = [Submit (args_host ?B) 22 (args_timeout ?B)]"
    and r3: "snd (main ?B faulty_transport [1]) = Uncaught ValueError_nan"
    by blast+
  then have r2: "pacing (fst (main ?B faulty_transport [1])) = [Submit ''localhost'' 22 (Finite 0.5)]"
    by simp
  from h(3) p(3) w(3) submission_pacing [of ?C "[22, 80]" faulty_transport "[1]"]
  have r4: "pacing (fst (main ?C faulty_transport [1])) = []"
    by blast
  from h(1) p(1) w(1) d(1) r1 d(2) r2 r3 w(3) r4 show ?thesis by blast
qed

theorem submission_aborted_counterexample:
  "parse_ports ''22,80'' = Inr [22, 80]
   \<and> main (stub_args ''22,80'' 50 (Finite (- 1))) stub_transport [] =
       ([Log (Starting ''localhost'' 2 50), Submit ''localhost'' 22 (Finite 0.5)],
        Uncaught ValueError_sleep_length)
   \<and> main (stub_args ''22,80'' 50 (Finite 10000000000)) stub_transport [] =
       ([Log (Starting ''localhost'' 2 50), Submit ''localhost'' 22 (Finite 0.5)],
        Uncaught OverflowError)
   \<and> main (stub_args ''22,80'' 0 (Finite 0.005)) stub_transport [] =
       ([Log (Starting ''localhost'' 2 0)], Uncaught ValueError_max_workers)"
proof -
  have p: "parse_ports ''22,80'' = Inr [22, 80]" by code_simp
  show ?thesis
    by (simp add: main_def stub_args_def ALLOWED_HOSTS_def p sweep_def)
qed

lemma parts_of_blank:
  "(\<forall>seg \<in> set (split CHR '','' s). strip seg = []) \<Longrightarrow> parts_of s = []"
  by (simp add: parts_of_def)

text \<open>
  C10, as the code has it. A port specification whose comma-separated segments are all
  blank parses to the empty port list; with an allowed host and a positive worker count
  the run then logs the start and the summary, submits no probe and returns with exit
  code 0.
\<close>

theorem blank_spec_empty_sweep:
  "(\<forall>seg \<in> set (split CHR '','' s). strip seg = []) \<longrightarrow>
     parse_ports s = Inr []
     \<and> (args_ports args = s \<longrightarrow> args_host args \<in> ALLOWED_HOSTS \<longrightarrow> 0 < args_workers args \<longrightarrow>
          main args net sched =
            ([Log (Starting (args_host args) 0 (args_workers args)), Log (Scan_complete None)],
             Returned)
          \<and> exit_code (snd (main args net sched)) = 0
          \<and> pacing (fst (main args net sched)) = []
          \<and> probe_results (fst (main args net sched)) = [])"
proof (intro impI conjI)
  assume "\<forall>seg \<in> set (split CHR '','' s). strip seg = []"
  then have "parts_of s = []" by (rule parts_of_blank)
  then show p: "parse_ports s = Inr []" by (simp add: parse_ports_def)
  assume a: "args_ports args = s" and h: "args_host args \<in> ALLOWED_HOSTS"
    and w: "0 < args_workers args"
  have "main args net sched = sweep args net sched []"
    using h p a by (simp add: main_allowed)
  then show run: "main args net sched =
            ([Log (Starting (args_host args) 0 (args_workers args)), Log (Scan_complete None)],
             Returned)"
    using w by (simp add: sweep_def)
  show "exit_code (snd (main args net sched)) = 0"
    and "pacing (fst (main args net sched)) = []"
    and "probe_results (fst (main args net sched)) = []"
    by (simp_all add: run)
qed

theorem blank_spec_empty_sweep_witness:
  "split CHR '','' '' , ,'' = ['' '', '' '', []]
   \<and> strip '' '' = [] \<and> strip [] = []
   \<and> parse_ports '' , ,'' = Inr []
   \<and> args_host (stub_args '' , ,'' 50 (Finite 0.005)) \<in> ALLOWED_HOSTS
   \<and> main (stub_args '' , ,'' 50 (Finite 0.005)) faulty_transport [] =
       ([Log (Starting ''localhost'' 0 50), Log (Scan_complete None)], Returned)"
proof -
  let ?A = "stub_args '' , ,'' 50 (Finite 0.005)"
  have sp: "split CHR '','' '' , ,'' = ['' '', '' '', []]" by simp
  have st: "strip '' '' = []" "strip [] = []"
    by (simp_all add: strip_def isspace_def whitespace_def)
  from sp st have blank: "\<forall>seg \<in> set (split CHR '','' '' , ,''). strip seg = []" by simp
  have h: "args_host ?A \<in> ALLOWED_HOSTS"
    by (simp add: localhost_allowed)
  from blank blank_spec_empty_sweep [of "'' , ,''" ?A faulty_transport "[]"]
  have p: "parse_ports '' , ,'' = Inr []"
    and r: "args_ports ?A = '' , ,'' \<longrightarrow> args_host ?A \<in> ALLOWED_HOSTS \<longrightarrow>
            0 < args_workers ?A \<longrightarrow>
            main ?A faulty_transport [] =
              ([Log (Starting (args_host ?A) 0 (args_workers ?A)),
                Log (Scan_complete None)], Returned)"
    by blast+
  from r h have "main ?A faulty_transport [] =
       ([Log (Starting ''localhost'' 0 50), Log (Scan_complete None)], Returned)"
    by simp
  with sp st p h show ?thesis by blast
qed

theorem blank_spec_no_workers_counterexample:
  "parse_ports '' , ,'' = Inr []
   \<and> main (stub_args '' , ,'' 0 (Finite 0.005)) stub_transport [] =
       ([Log (Starting ''localhost'' 0 0)], Uncaught ValueError_max_workers)
   \<and> exit_code (Uncaught ValueError_max_workers) = 1"
proof -
  have p: "parse_ports '' , ,'' = Inr []" by code_simp
  show ?thesis
    by (simp add: main_def stub_args_def ALLOWED_HOSTS_def p sweep_def)
qed

section \<open>The interactive client\<close>

lemma sent_append [simp]: "sent (xs @ ys) = sent xs @ sent ys"
  by (induction xs rule: sent.induct) auto

lemma fst_prepend [simp]: "fst (prepend evs r) = evs @ fst r"
  by (cases r) simp

lemma snd_prepend [simp]: "snd (prepend evs r) = snd r"
  by (cases r) simp

lemma loop_sent_prefix:
  "\<exists>ys. lines_read inputs = sent (fst (client_loop peer n inputs)) @ ys"
proof (induction inputs arbitrary: n)
  case Nil
  show ?case by simp
next
  case (Cons i inputs)
  show ?case
  proof (cases i)
    case Interrupt
    then show ?thesis by simp
  next
    case (Line l)
    from Cons.IH [of n] Cons.IH [of "Suc n"] show ?thesis
      by (auto simp: Line Let_def split: option.splits sum.splits sock_exception.splits)
  qed
qed

lemma loop_sent_answering:
  "answering peer \<Longrightarrow>
   sent (fst (client_loop peer n inputs)) = lines_read inputs \<and> snd (client_loop peer n inputs) = None"
proof (induction inputs arbitrary: n)
  case Nil
  show ?case by simp
next
  case (Cons i inputs)
  show ?case
  proof (cases i)
    case Interrupt
    then show ?thesis by simp
  next
    case (Line l)
    from Cons.prems obtain data where "sendall_fault (peer n) = None"
      and "data \<noteq> []" and "recv_result (peer n) = Inr data"
      unfolding answering_def by blast
    with Cons.IH [OF Cons.prems, of n] Cons.IH [OF Cons.prems, of "Suc n"] show ?thesis
      by (simp add: Line Let_def)
  qed
qed

lemma loop_step:
  assumes "strip l \<noteq> []" and "lower (strip l) \<notin> {''quit'', ''exit''}"
  shows "client_loop peer n (Line l # rest) =
     (case sendall_fault (peer n) of
        Some BrokenPipeError \<Rightarrow> ([Sendall (strip l), CLog Closed_BrokenPipe], None)
      | Some e \<Rightarrow> ([Sendall (strip l)], Some e)
      | None \<Rightarrow>
          (case recv_result (peer n) of
             Inr data \<Rightarrow>
               if data = [] then ([Sendall (strip l), CLog Closed_by_server], None)
               else prepend [Sendall (strip l), CLog (Received data)]
                      (client_loop peer (Suc n) rest)
           | Inl Socket_timeout \<Rightarrow>
               prepend [Sendall (strip l), CLog Timed_out_waiting]
                 (client_loop peer (Suc n) rest)
           | Inl e \<Rightarrow> ([Sendall (strip l)], Some e)))"
  using assms by (simp add: Let_def)

lemma loop_stops:
  assumes "ends_exchange (peer k)"
  shows "n \<le> k \<Longrightarrow> length (sent (fst (client_loop peer n inputs))) + n \<le> Suc k"
proof (induction inputs arbitrary: n)
  case Nil
  then show ?case by simp
next
  case (Cons i inputs)
  show ?case
  proof (cases i)
    case Interrupt
    with Cons.prems show ?thesis by simp
  next
    case (Line l)
    show ?thesis
    proof (cases "strip l = [] \<or> lower (strip l) \<in> {''quit'', ''exit''}")
      case True
      with Cons.IH [OF Cons.prems] Cons.prems show ?thesis
        by (auto simp: Line Let_def)
    next
      case False
      then have a: "strip l \<noteq> []" "lower (strip l) \<notin> {''quit'', ''exit''}"
        by simp_all
      note st = loop_step [OF a, of peer n inputs]
      show ?thesis
      proof (cases "n = k")
        case True
        with assms have "ends_exchange (peer n)" by simp
        then have "length (sent (fst (client_loop peer n (Line l # inputs)))) = 1"
          unfolding st ends_exchange_def
          by (auto split: option.splits sum.splits sock_exception.splits)
        with True show ?thesis by (simp add: Line)
      next
        case False
        with Cons.prems have "Suc n \<le> k" by simp
        then have "length (sent (fst (client_loop peer (Suc n) inputs))) + Suc n \<le> Suc k"
          by (rule Cons.IH)
        moreover have "length (sent (fst (client_loop peer n (Line l # inputs))))
              \<le> Suc (length (sent (fst (client_loop peer (Suc n) inputs))))"
          unfolding st
          by (auto split: option.splits sum.splits sock_exception.splits)
        ultimately show ?thesis by (simp add: Line)
      qed
    qed
  qed
qed

lemma sent_interactive_client:
  "sent (interactive_client None peer inputs) = sent (fst (client_loop peer 0 inputs))"
  by (cases "client_loop peer 0 inputs")
     (auto simp: interactive_client_def split: option.splits)

text \<open>
  C9, as the code has it. The client strips each input line; it skips a line that is
  blank once stripped, disconnects without sending on a line that is \<open>quit\<close> or \<open>exit\<close>
  in any letter case once stripped, and hands any other stripped line to \<open>sendall\<close>. The
  messages sent are therefore a prefix of the stripped, non-blank lines before the first
  keyword or interrupt, and all of them when the server answers every message. The
  loop also ends at the end of the input and on an interrupt, when \<open>sendall\<close> raises
  (logged as a closed connection for a broken pipe), when \<open>recv\<close> returns no data, and
  when \<open>recv\<close> raises anything but a time-out; after a time-out of \<open>recv\<close> it logs and
  reads the next line. Once an exchange has ended the connection nothing more is sent.
  However the loop ends, the socket is closed, and an exception that left the loop is
  logged after that.
\<close>

theorem client_sends_stripped_lines:
  "(\<exists>ys. lines_read inputs = sent (interactive_client None peer inputs) @ ys)
   \<and> (answering peer \<longrightarrow> sent (interactive_client None peer inputs) = lines_read inputs)
   \<and> (ends_exchange (peer k) \<longrightarrow> length (sent (interactive_client None peer inputs)) \<le> Suc k)
   \<and> (client_loop peer 0 inputs = (evs, None) \<longrightarrow>
        interactive_client None peer inputs = CLog Attempting # CLog Connected # evs @ [Close])
   \<and> (client_loop peer 0 inputs = (evs, Some e) \<longrightarrow>
        interactive_client None peer inputs =
          CLog Attempting # CLog Connected # evs @ [Close, CLog (handler e)])
   \<and> (lower (strip l) \<in> {''quit'', ''exit''} \<longrightarrow>
        client_loop peer n (Line l # rest) = ([CLog Requested_disconnect], None))
   \<and> (strip l = [] \<longrightarrow> client_loop peer n (Line l # rest) = client_loop peer n rest)
   \<and> client_loop peer n (Interrupt # rest) = ([CLog Input_interrupted], None)
   \<and> client_loop peer n [] = ([CLog Input_interrupted], None)
   \<and> (strip l \<noteq> [] \<longrightarrow> lower (strip l) \<notin> {''quit'', ''exit''} \<longrightarrow>
        (sendall_fault (peer n) = Some BrokenPipeError \<longrightarrow>
           client_loop peer n (Line l # rest) =
             ([Sendall (strip l), CLog Closed_BrokenPipe], None))
        \<and> (sendall_fault (peer n) = Some e \<longrightarrow> e \<noteq> BrokenPipeError \<longrightarrow>
             client_loop peer n (Line l # rest) = ([Sendall (strip l)], Some e))
        \<and> (sendall_fault (peer n) = None \<longrightarrow> recv_result (peer n) = Inr [] \<longrightarrow>
             client_loop peer n (Line l # rest) =
               ([Sendall (strip l), CLog Closed_by_server], None))
        \<and> (sendall_fault (peer n) = None \<longrightarrow> recv_result (peer n) = Inl e \<longrightarrow>
           e \<noteq> Socket_timeout \<longrightarrow>
             client_loop peer n (Line l # rest) = ([Sendall (strip l)], Some e))
        \<and> (sendall_fault (peer n) = None \<longrightarrow> recv_result (peer n) = Inl Socket_timeout \<longrightarrow>
             client_loop peer n (Line l # rest) =
               prepend [Sendall (strip l), CLog Timed_out_waiting]
                 (client_loop peer (Suc n) rest))
        \<and> (sendall_fault (peer n) = None \<longrightarrow> recv_result (peer n) = Inr data \<longrightarrow>
           data \<noteq> [] \<longrightarrow>
             client_loop peer n (Line l # rest) =
               prepend [Sendall (strip l), CLog (Received data)]
                 (client_loop peer (Suc n) rest)))"
proof (intro conjI impI)
  show "\<exists>ys. lines_read inputs = sent (interactive_client None peer inputs) @ ys"
    by (simp only: sent_interactive_client) (rule loop_sent_prefix)
next
  assume "answering peer"
  then show "sent (interactive_client None peer inputs) = lines_read inputs"
    by (simp only: sent_interactive_client loop_sent_answering)
next
  assume "ends_exchange (peer k)"
  then have "length (sent (fst (client_loop peer 0 inputs))) + 0 \<le> Suc k"
    by (rule loop_stops) simp
  then show "length (sent (interactive_client None peer inputs)) \<le> Suc k"
    by (simp add: sent_interactive_client)
next
  assume "client_loop peer 0 inputs = (evs, None)"
  then show "interactive_client None peer inputs
               = CLog Attempting # CLog Connected # evs @ [Close]"
    by (simp add: interactive_client_def)
next
  assume "client_loop peer 0 inputs = (evs, Some e)"
  then show "interactive_client None peer inputs
               = CLog Attempting # CLog Connected # evs @ [Close, CLog (handler e)]"
    by (simp add: interactive_client_def)
next
  assume k: "lower (strip l) \<in> {''quit'', ''exit''}"
  then have "strip l \<noteq> []" by (auto simp: lower_def)
  with k show "client_loop peer n (Line l # rest) = ([CLog Requested_disconnect], None)"
    by (simp add: Let_def)
next
  assume "strip l = []"
  then show "client_loop peer n (Line l # rest) = client_loop peer n rest"
    by (simp add: Let_def)
next
  show "client_loop peer n (Interrupt # rest) = ([CLog Input_interrupted], None)" by simp
next
  show "client_loop peer n [] = ([CLog Input_interrupted], None)" by simp
next
  assume a: "strip l \<noteq> []" "lower (strip l) \<notin> {''quit'', ''exit''}"
  note st = loop_step [OF a, of peer n rest]
  {
    assume "sendall_fault (peer n) = Some BrokenPipeError"
    then show "client_loop peer n (Line l # rest) =
             ([Sendall (strip l), CLog Closed_BrokenPipe], None)"
      unfolding st by simp
  }
  {
    assume "sendall_fault (peer n) = Some e" and "e \<noteq> BrokenPipeError"
    then show "client_loop peer n (Line l # rest) = ([Sendall (strip l)], Some e)"
      unfolding st by (simp split: sock_exception.splits)
  }
  {
    assume "sendall_fault (peer n) = None" and "recv_result (peer n) = Inr []"
    then show "client_loop peer n (Line l # rest) =
               ([Sendall (strip l), CLog Closed_by_server], None)"
      unfolding st by simp
  }
  {
    assume "sendall_fault (peer n) = None" and "recv_result (peer n) = Inl e"
      and "e \<noteq> Socket_timeout"
    then show "client_loop peer n (Line l # rest) = ([Sendall (strip l)], Some e)"
      unfolding st by (simp split: sock_exception.splits)
  }
  {
    assume "sendall_fault (peer n) = None" and "recv_result (peer n) = Inl Socket_timeout"
    then show "client_loop peer n (Line l # rest) =
               prepend [Sendall (strip l), CLog Timed_out_waiting]
                 (client_loop peer (Suc n) rest)"
      unfolding st by simp
  }
  {
    assume "sendall_fault (peer n) = None" and "recv_result (peer n) = Inr data"
      and "data \<noteq> []"
    then show "client_loop peer n (Line l # rest) =
               prepend [Sendall (strip l), CLog (Received data)]
                 (client_loop peer (Suc n) rest)"
      unfolding st by simp
  }
qed

lemmas str_eval = strip_def isspace_def whitespace_def lower_def uppercase_def lowercase_def

lemma strip_hi: "strip '' hi '' = ''hi''"
  by (simp add: str_eval)

lemma strip_QUIT: "strip ''QUIT'' = ''QUIT''"
  by (simp add: str_eval)

lemma lower_QUIT: "lower ''QUIT'' = ''quit''"
  by (simp add: str_eval)

lemma lower_hi: "lower ''hi'' = ''hi''"
  by (simp add: str_eval)

lemma strip_a: "strip ''a'' = ''a''" "lower ''a'' = ''a''"
  by (simp_all add: str_eval)

theorem client_not_verbatim_counterexample:
  "interactive_client None echo_peer [Line '' hi '', Line ''QUIT'', Line ''more''] =
     [CLog Attempting, CLog Connected, Sendall ''hi'', CLog (Received ''ok''),
      CLog Requested_disconnect, Close]
   \<and> '' hi '' \<noteq> ''hi''
   \<and> interactive_client None closing_peer [Line ''a'', Line ''b''] =
       [CLog Attempting, CLog Connected, Sendall ''a'', CLog Closed_by_server, Close]"
  by (simp add: interactive_client_def echo_peer_def closing_peer_def
        strip_hi strip_QUIT lower_QUIT lower_hi strip_a)

theorem client_sends_stripped_lines_witness:
  "answering echo_peer
   \<and> lines_read [Line '' hi '', Line ''   '', Line ''QUIT'', Line ''more''] = [''hi'']
   \<and> sent (interactive_client None echo_peer
             [Line '' hi '', Line ''   '', Line ''QUIT'', Line ''more'']) = [''hi'']
   \<and> lower (strip ''QUIT'') \<in> {''quit'', ''exit''}
   \<and> client_loop echo_peer 1 [Line ''QUIT'', Line ''more''] = ([CLog Requested_disconnect], None)
   \<and> strip ''   '' = []
   \<and> client_loop echo_peer 1 [Line ''   '', Line ''QUIT''] = client_loop echo_peer 1 [Line ''QUIT'']
   \<and> strip ''a'' \<noteq> [] \<and> lower (strip ''a'') \<notin> {''quit'', ''exit''}
   \<and> sendall_fault
         (scripted_peer [\<lparr>sendall_fault = Some BrokenPipeError, recv_result = Inr ''ok''\<rparr>] 0)
       = Some BrokenPipeError
   \<and> interactive_client None
         (scripted_peer [\<lparr>sendall_fault = Some BrokenPipeError, recv_result = Inr ''ok''\<rparr>])
         [Line ''a'', Line ''b'']
       = [CLog Attempting, CLog Connected, Sendall ''a'', CLog Closed_BrokenPipe, Close]
   \<and> recv_result
         (scripted_peer
            [\<lparr>sendall_fault = None, recv_result = Inl (Other_exception ''reset'')\<rparr>] 0)
       = Inl (Other_exception ''reset'')
   \<and> interactive_client None
         (scripted_peer
            [\<lparr>sendall_fault = None, recv_result = Inl (Other_exception ''reset'')\<rparr>])
         [Line ''a'', Line ''b'']
       = [CLog Attempting, CLog Connected, Sendall ''a'', Close,
          CLog (Unexpected_error (Other_exception ''reset''))]
   \<and> ends_exchange
         (scripted_peer
            [\<lparr>sendall_fault = None, recv_result = Inl Socket_timeout\<rparr>,
             \<lparr>sendall_fault = None, recv_result = Inr []\<rparr>] 1)
   \<and> interactive_client None
         (scripted_peer
            [\<lparr>sendall_fault = None, recv_result = Inl Socket_timeout\<rparr>,
             \<lparr>sendall_fault = None, recv_result = Inr []\<rparr>])
         [Line ''a'', Line ''a'', Line ''a'']
       = [CLog Attempting, CLog Connected, Sendall ''a'', CLog Timed_out_waiting,
          Sendall ''a'', CLog Closed_by_server, Close]
   \<and> length (sent (interactive_client None
         (scripted_peer
            [\<lparr>sendall_fault = None, recv_result = Inl Socket_timeout\<rparr>,
             \<lparr>sendall_fault = None, recv_result = Inr []\<rparr>])
         [Line ''a'', Line ''a'', Line ''a''])) \<le> Suc 1"
proof -
  let ?in = "[Line '' hi '', Line ''   '', Line ''QUIT'', Line ''more'']"
  let ?broken = "scripted_peer [\<lparr>sendall_fault = Some BrokenPipeError, recv_result = Inr ''ok''\<rparr>]"
  let ?reset = "scripted_peer
            [\<lparr>sendall_fault = None, recv_result = Inl (Other_exception ''reset'')\<rparr>]"
  let ?late = "scripted_peer
            [\<lparr>sendall_fault = None, recv_result = Inl Socket_timeout\<rparr>,
             \<lparr>sendall_fault = None, recv_result = Inr []\<rparr>]"
  have a: "answering echo_peer" by (simp add: answering_def echo_peer_def)
  have b: "strip ''   '' = []" by (simp add: str_eval)
  have c: "lower (strip ''QUIT'') \<in> {''quit'', ''exit''}" by (simp add: strip_QUIT lower_QUIT)
  have d: "lines_read ?in = [''hi'']"
    by (simp add: strip_hi lower_hi b strip_QUIT lower_QUIT)
  have na: "strip ''a'' \<noteq> []" "lower (strip ''a'') \<notin> {''quit'', ''exit''}"
    by (simp_all add: strip_a)
  have f1: "sendall_fault (?broken 0) = Some BrokenPipeError"
    by (simp add: scripted_peer_def)
  have f2: "sendall_fault (?reset 0) = None"
    "recv_result (?reset 0) = Inl (Other_exception ''reset'')"
    by (simp_all add: scripted_peer_def)
  have f3: "sendall_fault (?late 0) = None" "recv_result (?late 0) = Inl Socket_timeout"
    "sendall_fault (?late 1) = None" "recv_result (?late 1) = Inr []"
    by (simp_all add: scripted_peer_def)
  have f4: "ends_exchange (?late 1)"
    unfolding ends_exchange_def using f3(4) by blast

  from a client_sends_stripped_lines [of ?in echo_peer]
  have "sent (interactive_client None echo_peer ?in) = lines_read ?in" by blast
  then have r1: "sent (interactive_client None echo_peer ?in) = [''hi'']" by (simp only: d)
  from c client_sends_stripped_lines [where l = "''QUIT''" and peer = echo_peer and n = 1
      and rest = "[Line ''more'']"]
  have r2: "client_loop echo_peer 1 [Line ''QUIT'', Line ''more'']
              = ([CLog Requested_disconnect], None)"
    by blast
  from b client_sends_stripped_lines [where l = "''   ''" and peer = echo_peer and n = 1
      and rest = "[Line ''QUIT'']"]
  have r3: "client_loop echo_peer 1 [Line ''   '', Line ''QUIT'']
              = client_loop echo_peer 1 [Line ''QUIT'']"
    by blast

  from na f1 client_sends_stripped_lines [where l = "''a''" and peer = ?broken and n = 0
      and rest = "[Line ''b'']"]
  have "client_loop ?broken 0 [Line ''a'', Line ''b'']
          = ([Sendall (strip ''a''), CLog Closed_BrokenPipe], None)"
    by blast
  then have "client_loop ?broken 0 [Line ''a'', Line ''b'']
          = ([Sendall ''a'', CLog Closed_BrokenPipe], None)"
    by (simp only: strip_a)
  with client_sends_stripped_lines [where peer = ?broken and inputs = "[Line ''a'', Line ''b'']"
      and evs = "[Sendall ''a'', CLog Closed_BrokenPipe]"]
  have "interactive_client None ?broken [Line ''a'', Line ''b'']
          = CLog Attempting # CLog Connected # [Sendall ''a'', CLog Closed_BrokenPipe] @ [Close]"
    by blast
  then have r4: "interactive_client None ?broken [Line ''a'', Line ''b'']
       = [CLog Attempting, CLog Connected, Sendall ''a'', CLog Closed_BrokenPipe, Close]"
    by simp

  have ne: "Other_exception ''reset'' \<noteq> Socket_timeout" by simp
  from na f2 ne client_sends_stripped_lines [where l = "''a''" and peer = ?reset and n = 0
      and rest = "[Line ''b'']" and e = "Other_exception ''reset''"]
  have "client_loop ?reset 0 [Line ''a'', Line ''b'']
          = ([Sendall (strip ''a'')], Some (Other_exception ''reset''))"
    by blast
  then have "client_loop ?reset 0 [Line ''a'', Line ''b'']
          = ([Sendall ''a''], Some (Other_exception ''reset''))"
    by (simp only: strip_a)
  with client_sends_stripped_lines [where peer = ?reset and inputs = "[Line ''a'', Line ''b'']"
      and evs = "[Sendall ''a'']" and e = "Other_exception ''reset''"]
  have "interactive_client None ?reset [Line ''a'', Line ''b'']
          = CLog Attempting # CLog Connected # [Sendall ''a'']
              @ [Close, CLog (handler (Other_exception ''reset''))]"
    by blast
  then have r5: "interactive_client None ?reset [Line ''a'', Line ''b'']
       = [CLog Attempting, CLog Connected, Sendall ''a'', Close,
          CLog (Unexpected_error (Other_exception ''reset''))]"
    by simp

  from na f3(3,4) client_sends_stripped_lines [where l = "''a''" and peer = ?late and n = 1
      and rest = "[Line ''a'']"]
  have s1: "client_loop ?late 1 [Line ''a'', Line ''a'']
          = ([Sendall (strip ''a''), CLog Closed_by_server], None)"
    by blast
  from na f3(1,2) client_sends_stripped_lines [where l = "''a''" and peer = ?late and n = 0
      and rest = "[Line ''a'', Line ''a'']"]
  have "client_loop ?late 0 [Line ''a'', Line ''a'', Line ''a'']
          = prepend [Sendall (strip ''a''), CLog Timed_out_waiting]
              (client_loop ?late (Suc 0) [Line ''a'', Line ''a''])"
    by blast
  then have "client_loop ?late 0 [Line ''a'', Line ''a'', Line ''a'']
          = ([Sendall ''a'', CLog Timed_out_waiting, Sendall ''a'', CLog Closed_by_server], None)"
    using s1 by (simp add: strip_a)
  with client_sends_stripped_lines [where peer = ?late
      and inputs = "[Line ''a'', Line ''a'', Line ''a'']"
      and evs = "[Sendall ''a'', CLog Timed_out_waiting, Sendall ''a'', CLog Closed_by_server]"]
  have "interactive_client None ?late [Line ''a'', Line ''a'', Line ''a'']
          = CLog Attempting # CLog Connected
              # [Sendall ''a'', CLog Timed_out_waiting, Sendall ''a'', CLog Closed_by_server]
              @ [Close]"
    by blast
  then have r6: "interactive_client None ?late [Line ''a'', Line ''a'', Line ''a'']
       = [CLog Attempting, CLog Connected, Sendall ''a'', CLog Timed_out_waiting,
          Sendall ''a'', CLog Closed_by_server, Close]"
    by simp
  from f4 client_sends_stripped_lines [where peer = ?late and k = 1
      and inputs = "[Line ''a'', Line ''a'', Line ''a'']"]
  have r7: "length (sent (interactive_client None ?late [Line ''a'', Line ''a'', Line ''a'']))
              \<le> Suc 1"
    by blast
  from a d r1 c r2 b r3 na f1 r4 f2(2) r5 f4 r6 r7 show ?thesis by blast
qed

end
